theory Spec2Isabelle
  imports Main "HOL-Library.Product_Lexorder" "HOL-Library.List_Lexorder" "HOL-Library.Char_ord"
begin

section \<open>Errors\<close>

text \<open>
  The service and the repository return Go \<open>error\<close> values. The model names them:
  \<^item> \<open>InvalidFormat\<close>: \<open>errors.New("date must be in YYYY-MM-DD format")\<close>;
  \<^item> \<open>InvalidRange\<close>: \<open>errors.New("end date must be after start date")\<close>;
  \<^item> \<open>InvalidIdentifier\<close>: \<open>errors.New("invalid user_id format")\<close>;
  \<^item> \<open>NotFound\<close>: \<open>errors.New("subscription not found")\<close>;
  \<^item> \<open>ScanFailure\<close>: the error of \<open>pgtype.Date.Scan\<close> on a string it cannot parse;
  \<^item> \<open>NoRows\<close>: the error of a \<open>:one\<close> query that selects no row;
  \<^item> \<open>StorageFailure\<close>: any other error of a query (a violated constraint, a negative
    \<open>LIMIT\<close> or \<open>OFFSET\<close>).
\<close>

datatype error =
  InvalidFormat | InvalidRange | InvalidIdentifier | NotFound
  | ScanFailure | NoRows | StorageFailure

section \<open>Data model\<close>

text \<open>
  A \<open>uuid.UUID\<close> is sixteen bytes; the code only compares identifiers for equality.
  A calendar date (\<open>pgtype.Date\<close> with \<open>Valid\<close> set, a \<open>DATE\<close> of the store) is the
  triple of its year, month and day; the order of the store on dates is the
  lexicographic order of the triples. A timestamp is a number of clock ticks.
\<close>

type_synonym uuid = nat
type_synonym date = "int \<times> nat \<times> nat"

text \<open>
  \<open>sqlc.Subscription\<close>, a row of the table \<open>subscriptions\<close>. The type of the two date
  columns is a parameter: \<open>VARCHAR(7)\<close> in the earlier generation of the schema (a
  string), \<open>DATE\<close> in the later one. \<open>end_date\<close> is the only column that holds
  \<open>NULL\<close>.
\<close>

record 'd row =
  r_id :: uuid
  r_service_name :: string
  r_price :: int
  r_user_id :: uuid
  r_start_date :: 'd
  r_end_date :: "'d option"
  r_created_at :: nat
  r_updated_at :: nat

text \<open>\<open>domain.Subscription\<close> and the request types of package \<open>domain\<close>.\<close>

record Subscription =
  s_ID :: uuid
  s_ServiceName :: string
  s_Price :: int
  s_UserID :: uuid
  s_StartDate :: string
  s_EndDate :: "string option"
  s_CreatedAt :: nat
  s_UpdatedAt :: nat

record CreateSubscriptionRequest =
  c_ServiceName :: string
  c_Price :: int
  c_UserID :: uuid
  c_StartDate :: string
  c_EndDate :: "string option"

record UpdateSubscriptionRequest =
  u_ServiceName :: "string option"
  u_Price :: "int option"
  u_StartDate :: "string option"
  u_EndDate :: "string option"

record ListSubscriptionsRequest =
  l_UserID :: "string option"
  l_ServiceName :: "string option"
  l_Limit :: int
  l_Offset :: int

record TotalCostRequest =
  t_UserID :: "string option"
  t_ServiceName :: "string option"
  t_StartDate :: string
  t_EndDate :: string

text \<open>The filter types of package \<open>repository\<close>.\<close>

record ListSubscriptionsFilter =
  lf_UserID :: "uuid option"
  lf_ServiceName :: "string option"
  lf_Limit :: int
  lf_Offset :: int

record 'd TotalCostFilter =
  tf_UserID :: "uuid option"
  tf_ServiceName :: "string option"
  tf_StartDate :: 'd
  tf_EndDate :: 'd

section \<open>What the code takes from its libraries and from the store\<close>

text \<open>
  The functions of other packages that the code calls are parameters of the model:
  \<^item> \<open>uuid_Parse\<close>: \<open>uuid.Parse\<close> of github.com/google/uuid (\<open>None\<close> is its error);
  \<^item> \<open>date_Scan\<close>: \<open>pgtype.Date.Scan\<close> on a string (\<open>None\<close> is its error; a
    result is a date of the calendar: the two infinite dates that \<open>Scan\<close> also reads
    are written in eight and nine characters, which the validator of the service does
    not let through);
  \<^item> \<open>date_Format\<close>: \<open>time.Time.Format("2006-01-02")\<close>;
  \<^item> \<open>ilike\<close>: the operator \<open>text ILIKE pattern\<close> of the store;
  \<^item> \<open>table_check\<close>: the constraints of the table in the later generation of the
    schema (such as \<open>CHECK (price > 0)\<close> and the width of \<open>service_name\<close>), which an
    \<open>INSERT\<close> or \<open>UPDATE\<close> must satisfy.
\<close>

record ext =
  uuid_Parse :: "string \<Rightarrow> uuid option"
  date_Scan :: "string \<Rightarrow> date option"
  date_Format :: "date \<Rightarrow> string"
  ilike :: "string \<Rightarrow> string \<Rightarrow> bool"
  table_check :: "date row \<Rightarrow> bool"

text \<open>Go's conversion \<open>int32(n)\<close> of an \<open>int\<close> keeps the low 32 bits, signed.\<close>

definition int32 :: "int \<Rightarrow> int" where
  "int32 n = (n + 2147483648) mod 4294967296 - 2147483648"

section \<open>The store\<close>

text \<open>
  The state of the store is the table and the trace of the queries executed so far:
  every query of \<open>sqlc.Queries\<close> appends its name to the trace. The store is taken to
  be reachable: a query fails only for the reasons written out below.
\<close>

datatype query =
  QCreateSubscription | QGetSubscription | QUpdateSubscription | QDeleteSubscription
  | QListSubscriptions | QCountSubscriptions | QCalculateTotalCost

record 'd store =
  st_rows :: "'d row list"
  st_log :: "query list"

definition logged :: "query \<Rightarrow> 'd store \<Rightarrow> 'd store" where
  "logged q st = st\<lparr>st_log := st_log st @ [q]\<rparr>"

text \<open>
  The filter of the \<open>WHERE\<close> clauses:
  \<open>($1::UUID IS NULL OR user_id = $1) AND
   ($2::VARCHAR IS NULL OR service_name ILIKE '%' || $2 || '%')\<close>.
\<close>

definition sql_filter :: "ext \<Rightarrow> uuid option \<Rightarrow> string option \<Rightarrow> 'd row \<Rightarrow> bool" where
  "sql_filter x user_id service_name s =
     ((case user_id of None \<Rightarrow> True | Some u \<Rightarrow> r_user_id s = u) \<and>
      (case service_name of None \<Rightarrow> True
       | Some n \<Rightarrow> ilike x (r_service_name s) (''%'' @ n @ ''%'')))"

text \<open>
  \<open>INSERT INTO subscriptions (...) VALUES ($1, $2, $3, $4, $5) RETURNING *\<close>. The
  identifier (\<open>gen_random_uuid()\<close>) and the time (\<open>NOW()\<close>) are chosen by the store and
  are arguments here; the primary key and the constraints of the table are checked.
\<close>

definition sql_CreateSubscription ::
  "ext \<Rightarrow> uuid \<Rightarrow> nat \<Rightarrow> string \<Rightarrow> int \<Rightarrow> uuid \<Rightarrow> date \<Rightarrow> date option \<Rightarrow> date store
   \<Rightarrow> (error + date row) \<times> date store" where
  "sql_CreateSubscription x new_id now service_name price user_id start_date end_date st =
     (let s = \<lparr>r_id = new_id, r_service_name = service_name, r_price = price,
                r_user_id = user_id, r_start_date = start_date, r_end_date = end_date,
                r_created_at = now, r_updated_at = now\<rparr>;
          st' = logged QCreateSubscription st
      in if new_id \<in> set (map r_id (st_rows st)) then (Inl StorageFailure, st')
         else if table_check x s then (Inr s, st'\<lparr>st_rows := st_rows st @ [s]\<rparr>)
         else (Inl StorageFailure, st'))"

text \<open>\<open>SELECT * FROM subscriptions WHERE id = $1\<close>, a \<open>:one\<close> query.\<close>

definition sql_GetSubscription :: "uuid \<Rightarrow> 'd store \<Rightarrow> (error + 'd row) \<times> 'd store" where
  "sql_GetSubscription i st =
     (case find (\<lambda>s. r_id s = i) (st_rows st) of
        None \<Rightarrow> (Inl NoRows, logged QGetSubscription st)
      | Some s \<Rightarrow> (Inr s, logged QGetSubscription st))"

text \<open>
  \<open>UPDATE subscriptions SET service_name = COALESCE($2, service_name),
   price = COALESCE($3, price), start_date = COALESCE($4, start_date),
   end_date = COALESCE($5, end_date), updated_at = NOW() WHERE id = $1 RETURNING *\<close>.
  The parameters \<open>$2\<close> and \<open>$3\<close> are a Go \<open>string\<close> and \<open>int32\<close>, never \<open>NULL\<close>;
  \<open>$4\<close> and \<open>$5\<close> are \<open>pgtype.Date\<close> values, \<open>NULL\<close> when not \<open>Valid\<close>.
\<close>

definition coalesce :: "'a option \<Rightarrow> 'a option \<Rightarrow> 'a option" where
  "coalesce p v = (case p of None \<Rightarrow> v | Some w \<Rightarrow> Some w)"

definition update_row ::
  "nat \<Rightarrow> string \<Rightarrow> int \<Rightarrow> date option \<Rightarrow> date option \<Rightarrow> date row \<Rightarrow> date row" where
  "update_row now service_name price start_date end_date s =
     s\<lparr>r_service_name := service_name,
       r_price := price,
       r_start_date := (case start_date of None \<Rightarrow> r_start_date s | Some d \<Rightarrow> d),
       r_end_date := coalesce end_date (r_end_date s),
       r_updated_at := now\<rparr>"

definition sql_UpdateSubscription ::
  "ext \<Rightarrow> nat \<Rightarrow> uuid \<Rightarrow> string \<Rightarrow> int \<Rightarrow> date option \<Rightarrow> date option \<Rightarrow> date store
   \<Rightarrow> (error + date row) \<times> date store" where
  "sql_UpdateSubscription x now i service_name price start_date end_date st =
     (let st' = logged QUpdateSubscription st
      in case find (\<lambda>s. r_id s = i) (st_rows st) of
           None \<Rightarrow> (Inl NoRows, st')
         | Some s \<Rightarrow>
             let s' = update_row now service_name price start_date end_date s
             in if table_check x s'
                then (Inr s',
                      st'\<lparr>st_rows :=
                        map (\<lambda>r. if r_id r = i
                                 then update_row now service_name price start_date end_date r
                                 else r) (st_rows st)\<rparr>)
                else (Inl StorageFailure, st'))"

text \<open>
  \<open>DELETE FROM subscriptions WHERE id = $1\<close>, an \<open>:execrows\<close> query: it returns the
  number of rows it deleted.
\<close>

definition sql_DeleteSubscription :: "uuid \<Rightarrow> 'd store \<Rightarrow> (error + int) \<times> 'd store" where
  "sql_DeleteSubscription i st =
     (Inr (int (length (filter (\<lambda>s. r_id s = i) (st_rows st)))),
      (logged QDeleteSubscription st)\<lparr>st_rows := filter (\<lambda>s. r_id s \<noteq> i) (st_rows st)\<rparr>)"

text \<open>
  \<open>SELECT * FROM subscriptions WHERE ... ORDER BY created_at DESC LIMIT $3 OFFSET $4\<close>.
  The store rejects a negative \<open>LIMIT\<close> and a negative \<open>OFFSET\<close>. Rows of equal
  \<open>created_at\<close> come in an order the store does not fix; the model takes one.
\<close>

definition sql_ListSubscriptions ::
  "ext \<Rightarrow> uuid option \<Rightarrow> string option \<Rightarrow> int \<Rightarrow> int \<Rightarrow> 'd store
   \<Rightarrow> (error + 'd row list) \<times> 'd store" where
  "sql_ListSubscriptions x user_id service_name limit offset st =
     (if limit < 0 \<or> offset < 0 then (Inl StorageFailure, logged QListSubscriptions st)
      else (Inr (take (nat limit) (drop (nat offset)
                  (rev (sort_key r_created_at
                     (filter (sql_filter x user_id service_name) (st_rows st)))))),
            logged QListSubscriptions st))"

text \<open>\<open>SELECT COUNT(*) FROM subscriptions WHERE ...\<close>.\<close>

definition sql_CountSubscriptions ::
  "ext \<Rightarrow> uuid option \<Rightarrow> string option \<Rightarrow> 'd store \<Rightarrow> (error + int) \<times> 'd store" where
  "sql_CountSubscriptions x user_id service_name st =
     (Inr (int (length (filter (sql_filter x user_id service_name) (st_rows st)))),
      logged QCountSubscriptions st)"

section \<open>The months of a range\<close>

text \<open>
  \<open>generate_series(start::DATE, end::DATE, '1 month'::interval)::DATE\<close>: the store
  starts at \<open>start\<close> and adds one month to the current value for as long as it does
  not pass \<open>end\<close>. Adding a month keeps the day of the month, cut down to the last
  day of the month reached.
\<close>

definition leap_year :: "int \<Rightarrow> bool" where
  "leap_year y = (y mod 4 = 0 \<and> (y mod 100 \<noteq> 0 \<or> y mod 400 = 0))"

definition days_in_month :: "int \<Rightarrow> nat \<Rightarrow> nat" where
  "days_in_month y m =
     (if m = 2 then (if leap_year y then 29 else 28)
      else if m = 4 \<or> m = 6 \<or> m = 9 \<or> m = 11 then 30
      else 31)"

fun add_month :: "date \<Rightarrow> date" where
  "add_month (y, m, d) =
     (if 12 \<le> m then (y + 1, 1, min d (days_in_month (y + 1) 1))
      else (y, m + 1, min d (days_in_month y (m + 1))))"

function generate_series :: "date \<Rightarrow> date \<Rightarrow> date list" where
  "generate_series cur stop =
     (if cur \<le> stop then cur # generate_series (add_month cur) stop else [])"
  by pat_completeness auto
termination
proof (relation "measure (\<lambda>(cur, stop).
         nat (12 * (fst stop + 1 - fst cur) - int (min (fst (snd cur)) 12) + 1))")
  show "wf (measure (\<lambda>(cur, stop).
         nat (12 * (fst stop + 1 - fst cur) - int (min (fst (snd cur)) 12) + 1)))"
    by simp
next
  fix cur stop :: date
  assume le: "cur \<le> stop"
  obtain y m d where cur: "cur = (y, m, d)" by (cases cur) auto
  obtain y' m' d' where stop: "stop = (y', m', d')" by (cases stop) auto
  from le have "y \<le> y'" by (auto simp: cur stop less_eq_prod_def less_prod_def)
  then show "((add_month cur, stop), (cur, stop)) \<in> measure (\<lambda>(cur, stop).
         nat (12 * (fst stop + 1 - fst cur) - int (min (fst (snd cur)) 12) + 1))"
    by (auto simp: cur stop min_def)
qed

declare generate_series.simps [simp del]

section \<open>The cost aggregation in the store\<close>

text \<open>
  The later generation of \<open>CalculateTotalCost\<close>:
  \<^item> \<open>date_range\<close> is the series of months of the range;
  \<^item> \<open>subscription_costs\<close> joins every subscription with every month, keeps the pairs
    that pass the filter with the subscription started at the month and not ended
    before it, groups them by \<open>(s.id, s.price)\<close> and counts the distinct months of a
    group;
  \<^item> the result is \<open>COALESCE(SUM(price * months_count), 0)::BIGINT\<close>; the cast fails
    on a sum outside the 64-bit range.
\<close>

definition active_at :: "('d::linorder) row \<Rightarrow> 'd \<Rightarrow> bool" where
  "active_at s month_start =
     (r_start_date s \<le> month_start \<and>
      (case r_end_date s of None \<Rightarrow> True | Some e \<Rightarrow> month_start \<le> e))"

definition cross_join :: "'a list \<Rightarrow> 'b list \<Rightarrow> ('a \<times> 'b) list" where
  "cross_join xs ys = concat (map (\<lambda>x. map (Pair x) ys) xs)"

definition subscription_costs ::
  "ext \<Rightarrow> uuid option \<Rightarrow> string option \<Rightarrow> date list \<Rightarrow> date row list
   \<Rightarrow> (uuid \<times> int \<times> int) list" where
  "subscription_costs x user_id service_name date_range tbl =
     (let joined = filter (\<lambda>(s, dr). sql_filter x user_id service_name s \<and> active_at s dr)
                     (cross_join tbl date_range);
          key = (\<lambda>(s, dr). (r_id s, r_price s))
      in map (\<lambda>k. (fst k, snd k,
                   int (length (remdups (map snd (filter (\<lambda>j. key j = k) joined))))))
           (remdups (map key joined)))"

definition bigint :: "int \<Rightarrow> error + int" where
  "bigint n =
     (if - 9223372036854775808 \<le> n \<and> n \<le> 9223372036854775807 then Inr n
      else Inl StorageFailure)"

definition sql_CalculateTotalCost ::
  "ext \<Rightarrow> uuid option \<Rightarrow> string option \<Rightarrow> date \<Rightarrow> date \<Rightarrow> date store
   \<Rightarrow> (error + int) \<times> date store" where
  "sql_CalculateTotalCost x user_id service_name start_date end_date st =
     (bigint (sum_list (map (\<lambda>(subscription_id, price, months_count). price * months_count)
                (subscription_costs x user_id service_name
                   (generate_series start_date end_date) (st_rows st)))),
      logged QCalculateTotalCost st)"

text \<open>
  The earlier generation of \<open>CalculateTotalCost\<close>:
  \<open>SELECT COALESCE(SUM(price), 0)::BIGINT FROM subscriptions WHERE ... AND
   (start_date <= $4) AND (end_date IS NULL OR end_date >= $3)\<close>,
  over the column type of that generation, of which only the order is used.
\<close>

definition sql_CalculateTotalCost_v1 ::
  "ext \<Rightarrow> uuid option \<Rightarrow> string option \<Rightarrow> 'd \<Rightarrow> 'd \<Rightarrow> ('d::linorder) store
   \<Rightarrow> (error + int) \<times> 'd store" where
  "sql_CalculateTotalCost_v1 x p1 p2 p3 p4 st =
     (bigint (sum_list (map r_price
                (filter (\<lambda>s. sql_filter x p1 p2 s \<and> r_start_date s \<le> p4 \<and>
                             (case r_end_date s of None \<Rightarrow> True | Some e \<Rightarrow> p3 \<le> e))
                   (st_rows st)))),
      logged QCalculateTotalCost st)"

section \<open>The repository\<close>

text \<open>
  The methods of \<open>subscriptionRepository\<close>, later generation. The conversion of a
  \<open>uuid.UUID\<close> to a \<open>pgtype.UUID\<close> (\<open>Scan\<close> of its own \<open>String()\<close>) does not fail
  and is left out.
\<close>

definition convertToSubscription :: "ext \<Rightarrow> date row \<Rightarrow> Subscription" where
  "convertToSubscription x sub =
     \<lparr>s_ID = r_id sub,
      s_ServiceName = r_service_name sub,
      s_Price = r_price sub,
      s_UserID = r_user_id sub,
      s_StartDate = date_Format x (r_start_date sub),
      s_EndDate = (case r_end_date sub of None \<Rightarrow> None | Some e \<Rightarrow> Some (date_Format x e)),
      s_CreatedAt = r_created_at sub,
      s_UpdatedAt = r_updated_at sub\<rparr>"

definition repository_Create ::
  "ext \<Rightarrow> uuid \<Rightarrow> nat \<Rightarrow> CreateSubscriptionRequest \<Rightarrow> date store
   \<Rightarrow> (error + Subscription) \<times> date store" where
  "repository_Create x new_id now req st =
     (case date_Scan x (c_StartDate req) of
        None \<Rightarrow> (Inl ScanFailure, st)
      | Some startDate \<Rightarrow>
          (case (case c_EndDate req of
                   None \<Rightarrow> Inr None
                 | Some e \<Rightarrow> (case date_Scan x e of
                                None \<Rightarrow> Inl ScanFailure
                              | Some d \<Rightarrow> Inr (Some d))) of
             Inl err \<Rightarrow> (Inl err, st)
           | Inr endDate \<Rightarrow>
               (case sql_CreateSubscription x new_id now (c_ServiceName req)
                       (int32 (c_Price req)) (c_UserID req) startDate endDate st of
                  (Inl err, st') \<Rightarrow> (Inl err, st')
                | (Inr sub, st') \<Rightarrow> (Inr (convertToSubscription x sub), st'))))"

definition repository_GetByID ::
  "ext \<Rightarrow> uuid \<Rightarrow> date store \<Rightarrow> (error + Subscription) \<times> date store" where
  "repository_GetByID x i st =
     (case sql_GetSubscription i st of
        (Inl err, st') \<Rightarrow> (Inl err, st')
      | (Inr sub, st') \<Rightarrow> (Inr (convertToSubscription x sub), st'))"

definition repository_Update ::
  "ext \<Rightarrow> nat \<Rightarrow> uuid \<Rightarrow> UpdateSubscriptionRequest \<Rightarrow> date store
   \<Rightarrow> (error + Subscription) \<times> date store" where
  "repository_Update x now i req st =
     (case sql_GetSubscription i st of
        (Inl err, st1) \<Rightarrow> (Inl err, st1)
      | (Inr current, st1) \<Rightarrow>
          let serviceName = (case u_ServiceName req of
                               None \<Rightarrow> r_service_name current | Some n \<Rightarrow> n);
              price = (case u_Price req of
                         None \<Rightarrow> r_price current | Some p \<Rightarrow> int32 p)
          in case (case u_StartDate req of
                     None \<Rightarrow> Inr (Some (r_start_date current))
                   | Some sd \<Rightarrow> (case date_Scan x sd of
                                   None \<Rightarrow> Inl ScanFailure
                                 | Some newStartDate \<Rightarrow> Inr (Some newStartDate))) of
               Inl err \<Rightarrow> (Inl err, st1)
             | Inr startDate \<Rightarrow>
                 (case (case u_EndDate req of
                          None \<Rightarrow> Inr (r_end_date current)
                        | Some ed \<Rightarrow> (case date_Scan x ed of
                                        None \<Rightarrow> Inl ScanFailure
                                      | Some newEndDate \<Rightarrow> Inr (Some newEndDate))) of
                    Inl err \<Rightarrow> (Inl err, st1)
                  | Inr endDate \<Rightarrow>
                      (case sql_UpdateSubscription x now i serviceName price
                              startDate endDate st1 of
                         (Inl err, st2) \<Rightarrow> (Inl err, st2)
                       | (Inr sub, st2) \<Rightarrow> (Inr (convertToSubscription x sub), st2))))"

definition repository_Delete :: "uuid \<Rightarrow> date store \<Rightarrow> (error + unit) \<times> date store" where
  "repository_Delete i st =
     (case sql_DeleteSubscription i st of
        (Inl err, st') \<Rightarrow> (Inl err, st')
      | (Inr rowsAffected, st') \<Rightarrow>
          if rowsAffected = 0 then (Inr (), st') else (Inr (), st'))"

definition repository_List ::
  "ext \<Rightarrow> ListSubscriptionsFilter \<Rightarrow> date store
   \<Rightarrow> (error + Subscription list \<times> int) \<times> date store" where
  "repository_List x flt st =
     (let userID = lf_UserID flt;
          serviceName = (case lf_ServiceName flt of None \<Rightarrow> [] | Some n \<Rightarrow> n);
          name_param = (if serviceName \<noteq> [] then Some serviceName else None)
      in case sql_ListSubscriptions x userID name_param
                (int32 (lf_Limit flt)) (int32 (lf_Offset flt)) st of
           (Inl err, st1) \<Rightarrow> (Inl err, st1)
         | (Inr subs, st1) \<Rightarrow>
             (case sql_CountSubscriptions x userID name_param st1 of
                (Inl err, st2) \<Rightarrow> (Inl err, st2)
              | (Inr count, st2) \<Rightarrow>
                  (Inr (map (convertToSubscription x) subs, count), st2)))"

definition repository_CalculateTotalCost ::
  "ext \<Rightarrow> string TotalCostFilter \<Rightarrow> date store \<Rightarrow> (error + int) \<times> date store" where
  "repository_CalculateTotalCost x flt st =
     (let userID = tf_UserID flt;
          serviceName = (case tf_ServiceName flt of None \<Rightarrow> [] | Some n \<Rightarrow> n)
      in case date_Scan x (tf_StartDate flt) of
           None \<Rightarrow> (Inl ScanFailure, st)
         | Some startDate \<Rightarrow>
             (case date_Scan x (tf_EndDate flt) of
                None \<Rightarrow> (Inl ScanFailure, st)
              | Some endDate \<Rightarrow>
                  (case sql_CalculateTotalCost x userID
                          (if serviceName \<noteq> [] then Some serviceName else None)
                          startDate endDate st of
                     (Inl err, st') \<Rightarrow> (Inl err, st')
                   | (Inr totalCost, st') \<Rightarrow> (Inr totalCost, st'))))"

text \<open>
  \<open>CalculateTotalCost\<close> of the earlier generation of the repository. The dates of the
  filter go to the query as they are; the field \<open>EndDate\<close> of the parameters (\<open>$3\<close>,
  compared with the column \<open>end_date\<close>) takes the start of the range, the field
  \<open>StartDate\<close> (\<open>$4\<close>, compared with \<open>start_date\<close>) takes its end, and the name is
  passed as a string, empty when the filter has none.
\<close>

definition repository_CalculateTotalCost_v1 ::
  "ext \<Rightarrow> 'd TotalCostFilter \<Rightarrow> ('d::linorder) store \<Rightarrow> (error + int) \<times> 'd store" where
  "repository_CalculateTotalCost_v1 x flt st =
     (let userID = tf_UserID flt;
          serviceName = (case tf_ServiceName flt of None \<Rightarrow> [] | Some n \<Rightarrow> n)
      in case sql_CalculateTotalCost_v1 x userID (Some serviceName)
                (tf_StartDate flt) (tf_EndDate flt) st of
           (Inl err, st') \<Rightarrow> (Inl err, st')
         | (Inr totalCost, st') \<Rightarrow> (Inr totalCost, st'))"

section \<open>The service\<close>

subsection \<open>The date validator of the service\<close>

text \<open>
  \<open>subscriptionService.validateDateFormat\<close>: the length, the two separators, and a
  check of the lengths of the three segments cut out of the string.
\<close>

definition validateDateFormat :: "string \<Rightarrow> error + unit" where
  "validateDateFormat date =
     (if length date \<noteq> 10 then Inl InvalidFormat
      else if date ! 4 \<noteq> CHR ''-'' \<or> date ! 7 \<noteq> CHR ''-'' then Inl InvalidFormat
      else
        let year = take 4 date;
            month = take 2 (drop 5 date);
            day = drop 8 date
        in if length year \<noteq> 4 \<or> length month \<noteq> 2 \<or> length day \<noteq> 2
           then Inl InvalidFormat
           else Inr ())"

text \<open>The words of the specification about the validator, for comparison with the code.\<close>

definition is_digit :: "char \<Rightarrow> bool" where
  "is_digit c = (c \<in> set ''0123456789'')"

definition date_shape :: "string \<Rightarrow> bool" where
  "date_shape s = (length s = 10 \<and> s ! 4 = CHR ''-'' \<and> s ! 7 = CHR ''-'')"

definition numeric_year_month :: "string \<Rightarrow> bool" where
  "numeric_year_month s = list_all is_digit (take 4 s @ take 2 (drop 5 s))"

definition canonical_date :: "string \<Rightarrow> bool" where
  "canonical_date s =
     (date_shape s \<and> list_all is_digit (take 4 s @ take 2 (drop 5 s) @ drop 8 s))"

subsection \<open>The operations of the service\<close>

text \<open>
  The methods of \<open>subscriptionService\<close>. Each takes the state of the store and returns
  it with its result; \<open>List\<close> also returns its request, whose limit it overwrites.
\<close>

definition service_Create ::
  "ext \<Rightarrow> uuid \<Rightarrow> nat \<Rightarrow> CreateSubscriptionRequest \<Rightarrow> date store
   \<Rightarrow> (error + Subscription) \<times> date store" where
  "service_Create x new_id now req st =
     (case validateDateFormat (c_StartDate req) of
        Inl err \<Rightarrow> (Inl err, st)
      | Inr _ \<Rightarrow>
          (case c_EndDate req of
             None \<Rightarrow> repository_Create x new_id now req st
           | Some e \<Rightarrow>
               (case validateDateFormat e of
                  Inl err \<Rightarrow> (Inl err, st)
                | Inr _ \<Rightarrow>
                    if e < c_StartDate req then (Inl InvalidRange, st)
                    else repository_Create x new_id now req st)))"

definition service_GetByID ::
  "ext \<Rightarrow> uuid \<Rightarrow> date store \<Rightarrow> (error + Subscription) \<times> date store" where
  "service_GetByID x i st = repository_GetByID x i st"

definition service_Update ::
  "ext \<Rightarrow> nat \<Rightarrow> uuid \<Rightarrow> UpdateSubscriptionRequest \<Rightarrow> date store
   \<Rightarrow> (error + Subscription) \<times> date store" where
  "service_Update x now i req st =
     (case repository_GetByID x i st of
        (Inl err, st1) \<Rightarrow> (Inl NotFound, st1)
      | (Inr _, st1) \<Rightarrow>
          (case (case u_StartDate req of
                   None \<Rightarrow> Inr () | Some sd \<Rightarrow> validateDateFormat sd) of
             Inl err \<Rightarrow> (Inl err, st1)
           | Inr _ \<Rightarrow>
               (case (case u_EndDate req of
                        None \<Rightarrow> Inr () | Some ed \<Rightarrow> validateDateFormat ed) of
                  Inl err \<Rightarrow> (Inl err, st1)
                | Inr _ \<Rightarrow> repository_Update x now i req st1)))"

definition service_Delete ::
  "ext \<Rightarrow> uuid \<Rightarrow> date store \<Rightarrow> (error + unit) \<times> date store" where
  "service_Delete x i st =
     (case repository_GetByID x i st of
        (Inl err, st1) \<Rightarrow> (Inl NotFound, st1)
      | (Inr _, st1) \<Rightarrow> repository_Delete i st1)"

definition service_List ::
  "ext \<Rightarrow> ListSubscriptionsRequest \<Rightarrow> date store
   \<Rightarrow> (error + Subscription list \<times> int) \<times> ListSubscriptionsRequest \<times> date store" where
  "service_List x req0 st =
     (let req1 = (if l_Limit req0 \<le> 0 then req0\<lparr>l_Limit := 20\<rparr> else req0);
          req = (if l_Limit req1 > 100 then req1\<lparr>l_Limit := 100\<rparr> else req1);
          flt = \<lparr>lf_UserID = None, lf_ServiceName = l_ServiceName req,
                 lf_Limit = l_Limit req, lf_Offset = l_Offset req\<rparr>
      in case (case l_UserID req of
                 None \<Rightarrow> Inr None
               | Some u \<Rightarrow>
                   if u \<noteq> [] then
                     (case uuid_Parse x u of
                        None \<Rightarrow> Inl InvalidIdentifier
                      | Some userID \<Rightarrow> Inr (Some userID))
                   else Inr None) of
           Inl err \<Rightarrow> (Inl err, req, st)
         | Inr userID \<Rightarrow>
             (case repository_List x (flt\<lparr>lf_UserID := userID\<rparr>) st of
                (r, st') \<Rightarrow> (r, req, st')))"

record TotalCostResponse =
  TotalCost :: int

definition service_CalculateTotalCost ::
  "ext \<Rightarrow> TotalCostRequest \<Rightarrow> date store \<Rightarrow> (error + TotalCostResponse) \<times> date store" where
  "service_CalculateTotalCost x req st =
     (case validateDateFormat (t_StartDate req) of
        Inl err \<Rightarrow> (Inl err, st)
      | Inr _ \<Rightarrow>
          (case validateDateFormat (t_EndDate req) of
             Inl err \<Rightarrow> (Inl err, st)
           | Inr _ \<Rightarrow>
               let flt = \<lparr>tf_UserID = None, tf_ServiceName = t_ServiceName req,
                          tf_StartDate = t_StartDate req, tf_EndDate = t_EndDate req\<rparr>
               in case (case t_UserID req of
                          None \<Rightarrow> Inr None
                        | Some u \<Rightarrow>
                            if u \<noteq> [] then
                              (case uuid_Parse x u of
                                 None \<Rightarrow> Inl InvalidIdentifier
                               | Some userID \<Rightarrow> Inr (Some userID))
                            else Inr None) of
                    Inl err \<Rightarrow> (Inl err, st)
                  | Inr userID \<Rightarrow>
                      (case repository_CalculateTotalCost x (flt\<lparr>tf_UserID := userID\<rparr>) st of
                         (Inl err, st') \<Rightarrow> (Inl err, st')
                       | (Inr totalCost, st') \<Rightarrow> (Inr \<lparr>TotalCost = totalCost\<rparr>, st'))))"

section \<open>An instance of the parameters\<close>

text \<open>
  To run the model on concrete requests, the parameters are instantiated:
  \<^item> identifiers are read from the 36-character form of eight, four, four, four and
    twelve hexadecimal digits separated by dashes;
  \<^item> dates are read from ten characters \<open>YYYY-MM-DD\<close> of a date of the calendar and
    written back in the same form;
  \<^item> \<open>ILIKE\<close> with a pattern \<open>%n%\<close> is the search of \<open>n\<close> in the text, letters
    compared without case;
  \<^item> the table checks \<open>price > 0\<close> and at most 255 characters of \<open>service_name\<close>.
  The theorems below hold for every value of the parameters; the instance serves the
  concrete runs only.
\<close>

definition digit_val :: "char \<Rightarrow> nat option" where
  "digit_val c =
     (if CHR ''0'' \<le> c \<and> c \<le> CHR ''9'' then Some (of_char c - 48) else None)"

definition hex_val :: "char \<Rightarrow> nat option" where
  "hex_val c =
     (if CHR ''0'' \<le> c \<and> c \<le> CHR ''9'' then Some (of_char c - 48)
      else if CHR ''a'' \<le> c \<and> c \<le> CHR ''f'' then Some (of_char c - 87)
      else if CHR ''A'' \<le> c \<and> c \<le> CHR ''F'' then Some (of_char c - 55)
      else None)"

fun read_num :: "nat \<Rightarrow> (char \<Rightarrow> nat option) \<Rightarrow> nat \<Rightarrow> string \<Rightarrow> nat option" where
  "read_num base val acc [] = Some acc"
| "read_num base val acc (c # cs) =
     (case val c of None \<Rightarrow> None | Some v \<Rightarrow> read_num base val (base * acc + v) cs)"

definition uuid_Parse0 :: "string \<Rightarrow> uuid option" where
  "uuid_Parse0 s =
     (if length s = 36 \<and> s ! 8 = CHR ''-'' \<and> s ! 13 = CHR ''-'' \<and> s ! 18 = CHR ''-''
         \<and> s ! 23 = CHR ''-''
      then read_num 16 hex_val 0 (filter (\<lambda>c. c \<noteq> CHR ''-'') s)
      else None)"

definition date_Scan0 :: "string \<Rightarrow> date option" where
  "date_Scan0 s =
     (if length s = 10 \<and> s ! 4 = CHR ''-'' \<and> s ! 7 = CHR ''-'' then
        (case (read_num 10 digit_val 0 (take 4 s),
               read_num 10 digit_val 0 (take 2 (drop 5 s)),
               read_num 10 digit_val 0 (drop 8 s)) of
           (Some y, Some m, Some d) \<Rightarrow>
             if 1 \<le> m \<and> m \<le> 12 \<and> 1 \<le> d \<and> d \<le> days_in_month (int y) m
             then Some (int y, m, d) else None
         | _ \<Rightarrow> None)
      else None)"

definition digit_char :: "nat \<Rightarrow> char" where
  "digit_char n = ''0123456789'' ! (n mod 10)"

definition date_Format0 :: "date \<Rightarrow> string" where
  "date_Format0 dt =
     (case dt of (y, m, d) \<Rightarrow>
        [digit_char (nat y div 1000), digit_char (nat y div 100), digit_char (nat y div 10),
         digit_char (nat y)] @ ''-'' @ [digit_char (m div 10), digit_char m] @ ''-''
        @ [digit_char (d div 10), digit_char d])"

definition lower :: "char \<Rightarrow> char" where
  "lower c = (if CHR ''A'' \<le> c \<and> c \<le> CHR ''Z'' then char_of (of_char c + (32::nat)) else c)"

definition ilike0 :: "string \<Rightarrow> string \<Rightarrow> bool" where
  "ilike0 txt pat =
     (let n = map lower (butlast (tl pat)); t = map lower txt
      in list_ex (\<lambda>k. take (length n) (drop k t) = n) [0..<Suc (length t)])"

definition table_check0 :: "date row \<Rightarrow> bool" where
  "table_check0 s = (0 < r_price s \<and> length (r_service_name s) \<le> 255)"

definition ext0 :: ext where
  "ext0 = \<lparr>uuid_Parse = uuid_Parse0, date_Scan = date_Scan0, date_Format = date_Format0,
           ilike = ilike0, table_check = table_check0\<rparr>"

text \<open>
  A table of one subscription of price 400 from January to March 2023, and a table of
  one open-ended subscription that starts in May 2023.
\<close>

definition sub_jan_mar :: "date row" where
  "sub_jan_mar =
     \<lparr>r_id = 1, r_service_name = ''Yandex Plus'', r_price = 400, r_user_id = 7,
      r_start_date = (2023, 1, 1), r_end_date = Some (2023, 3, 1),
      r_created_at = 10, r_updated_at = 10\<rparr>"

definition sub_may_open :: "date row" where
  "sub_may_open =
     \<lparr>r_id = 2, r_service_name = ''Netflix'', r_price = 400, r_user_id = 7,
      r_start_date = (2023, 5, 1), r_end_date = None,
      r_created_at = 20, r_updated_at = 20\<rparr>"

definition store_of :: "'d row list \<Rightarrow> 'd store" where
  "store_of tbl = \<lparr>st_rows = tbl, st_log = []\<rparr>"

section \<open>Vocabulary of the statements\<close>

text \<open>
  The user filter that the service derives from the \<open>user_id\<close> of a request (absent
  and empty are no filter, anything else must parse), and the name filter that the
  repository derives from its \<open>service_name\<close> (absent and empty are no filter).
\<close>

definition user_filter :: "ext \<Rightarrow> string option \<Rightarrow> error + uuid option" where
  "user_filter x u =
     (case u of
        None \<Rightarrow> Inr None
      | Some s \<Rightarrow>
          if s \<noteq> [] then
            (case uuid_Parse x s of
               None \<Rightarrow> Inl InvalidIdentifier
             | Some userID \<Rightarrow> Inr (Some userID))
          else Inr None)"

definition name_filter :: "string option \<Rightarrow> string option" where
  "name_filter n = (case n of None \<Rightarrow> None | Some s \<Rightarrow> if s \<noteq> [] then Some s else None)"

text \<open>
  The validation errors of the specification. A malformed date is refused in two places:
  by the validator of the service (\<open>InvalidFormat\<close>) and, when it has the shape that
  the validator accepts, by \<open>pgtype.Date.Scan\<close> in the repository (\<open>ScanFailure\<close>); both
  are the \<open>InvalidFormat\<close> of the specification.
\<close>

definition validation_error :: "error \<Rightarrow> bool" where
  "validation_error e =
     (e = InvalidFormat \<or> e = InvalidRange \<or> e = InvalidIdentifier \<or> e = ScanFailure)"

text \<open>
  For an update request: a supplied date that the validator of the service refuses, a
  supplied date that \<open>pgtype.Date.Scan\<close> refuses, and the row that the \<open>UPDATE\<close>
  makes of a row \<open>r\<close> when \<open>cur\<close> is the row that the repository has read.
\<close>

definition bad_shape :: "string option \<Rightarrow> bool" where
  "bad_shape d = (case d of None \<Rightarrow> False | Some s \<Rightarrow> \<not> date_shape s)"

definition scan_fails :: "ext \<Rightarrow> string option \<Rightarrow> bool" where
  "scan_fails x d = (case d of None \<Rightarrow> False | Some s \<Rightarrow> date_Scan x s = None)"

definition written_row ::
  "ext \<Rightarrow> nat \<Rightarrow> UpdateSubscriptionRequest \<Rightarrow> date row \<Rightarrow> date row \<Rightarrow> date row" where
  "written_row x now req cur r =
     update_row now
       (case u_ServiceName req of None \<Rightarrow> r_service_name cur | Some n \<Rightarrow> n)
       (case u_Price req of None \<Rightarrow> r_price cur | Some p \<Rightarrow> int32 p)
       (case u_StartDate req of None \<Rightarrow> Some (r_start_date cur) | Some s \<Rightarrow> date_Scan x s)
       (case u_EndDate req of None \<Rightarrow> r_end_date cur | Some s \<Rightarrow> date_Scan x s)
       r"

text \<open>Two update requests: one that supplies the price only, one the start date only.\<close>

definition price_only :: UpdateSubscriptionRequest where
  "price_only = \<lparr>u_ServiceName = None, u_Price = Some 500, u_StartDate = None, u_EndDate = None\<rparr>"

definition start_june :: UpdateSubscriptionRequest where
  "start_june = \<lparr>u_ServiceName = None, u_Price = None, u_StartDate = Some ''2023-06-01'',
                  u_EndDate = None\<rparr>"

text \<open>The clamping of the limit of a list request, in the words of the specification.\<close>

definition clamp_limit :: "int \<Rightarrow> int" where
  "clamp_limit l = (if l \<le> 0 then 20 else if l > 100 then 100 else l)"

text \<open>
  The filter in the words of the specification: an optional owning user and an optional
  part of the service name, searched in the name with letters compared without case.
\<close>

definition contains_ci :: "string \<Rightarrow> string \<Rightarrow> bool" where
  "contains_ci n t =
     list_ex (\<lambda>k. take (length n) (drop k (map lower t)) = map lower n) [0..<Suc (length t)]"

definition filter_matches :: "uuid option \<Rightarrow> string option \<Rightarrow> 'd row \<Rightarrow> bool" where
  "filter_matches user_id name s =
     ((case user_id of None \<Rightarrow> True | Some u \<Rightarrow> r_user_id s = u) \<and>
      (case name of None \<Rightarrow> True | Some n \<Rightarrow> contains_ci n (r_service_name s)))"

text \<open>
  The behaviour of \<open>ILIKE\<close> that makes the filter of the queries the filter of the
  specification: on the names of the table, the pattern \<open>%n%\<close> made of the name \<open>n\<close>
  of the request finds exactly the names that contain \<open>n\<close> (as the store does for a
  name without the wildcards of patterns).
\<close>

definition ilike_searches :: "ext \<Rightarrow> string option \<Rightarrow> 'd row list \<Rightarrow> bool" where
  "ilike_searches x name tbl =
     (case name of
        None \<Rightarrow> True
      | Some n \<Rightarrow>
          list_all (\<lambda>s. ilike x (r_service_name s) (''%'' @ n @ ''%'')
                         = contains_ci n (r_service_name s)) tbl)"

text \<open>
  The total cost in the words of the specification, at the granularity of calendar
  months. A month is numbered by \<open>12 * year + month\<close>; the months of the range are the
  numbers from the month of its start to the month of its end; a subscription is
  active in a month \<open>m\<close> when the month of its start is at most \<open>m\<close> and it has no end
  or the month of its end is at least \<open>m\<close>; the total is the sum, over the subscriptions
  that match the filter, of the price times the number of months of the range in which
  the subscription is active.
\<close>

definition month_index :: "date \<Rightarrow> int" where
  "month_index dt = 12 * fst dt + int (fst (snd dt))"

definition active_months :: "date row \<Rightarrow> date \<Rightarrow> date \<Rightarrow> nat" where
  "active_months s a b =
     length (filter (\<lambda>m. month_index (r_start_date s) \<le> m \<and>
                          (case r_end_date s of None \<Rightarrow> True | Some e \<Rightarrow> month_index e \<ge> m))
               [month_index a..month_index b])"

definition spec_total_cost ::
  "uuid option \<Rightarrow> string option \<Rightarrow> date \<Rightarrow> date \<Rightarrow> date row list \<Rightarrow> int" where
  "spec_total_cost u n a b tbl =
     (\<Sum>s\<leftarrow>filter (filter_matches u n) tbl. r_price s * int (active_months s a b))"

text \<open>
  A date of the calendar, a date that is the first day of its month (the form in which
  a year-month of the specification is stored), and a row that starts on the first day
  of a month and ends, if it ends, on a date of the calendar.
\<close>

definition valid_date :: "date \<Rightarrow> bool" where
  "valid_date dt =
     (case dt of (y, m, d) \<Rightarrow> 1 \<le> m \<and> m \<le> 12 \<and> 1 \<le> d \<and> d \<le> days_in_month y m)"

definition month_start :: "date \<Rightarrow> bool" where
  "month_start dt = (valid_date dt \<and> snd (snd dt) = 1)"

definition starts_with_month :: "date row \<Rightarrow> bool" where
  "starts_with_month s =
     (month_start (r_start_date s) \<and>
      (case r_end_date s of None \<Rightarrow> True | Some e \<Rightarrow> valid_date e))"

text \<open>
  The table of the earlier generation keeps the two dates in columns of type
  \<open>VARCHAR(7)\<close> and its query compares them as text. \<open>text_store\<close> is the table of the
  later generation with every date written as text by a representation \<open>repr\<close>;
  \<open>year_month\<close> writes \<open>YYYY-MM\<close>, \<open>month_year\<close> writes \<open>MM-YYYY\<close> (the form that the
  documentation of the handlers of that generation gives). Text is compared character
  by character, which is the order of the store on strings of digits and hyphens of
  one shape. \<open>text_dates\<close> holds of a row whose dates \<open>year_month\<close> writes without loss
  of order: it starts on the first day of a month and its years have four digits.
\<close>

definition year_month :: "date \<Rightarrow> string" where
  "year_month dt = take 7 (date_Format0 dt)"

definition month_year :: "date \<Rightarrow> string" where
  "month_year dt = take 2 (drop 5 (date_Format0 dt)) @ ''-'' @ take 4 (date_Format0 dt)"

definition as_text :: "(date \<Rightarrow> string) \<Rightarrow> date row \<Rightarrow> string row" where
  "as_text repr s =
     \<lparr>r_id = r_id s, r_service_name = r_service_name s, r_price = r_price s,
      r_user_id = r_user_id s, r_start_date = repr (r_start_date s),
      r_end_date = (case r_end_date s of None \<Rightarrow> None | Some e \<Rightarrow> Some (repr e)),
      r_created_at = r_created_at s, r_updated_at = r_updated_at s\<rparr>"

definition text_store :: "(date \<Rightarrow> string) \<Rightarrow> date store \<Rightarrow> string store" where
  "text_store repr st = \<lparr>st_rows = map (as_text repr) (st_rows st), st_log = st_log st\<rparr>"

definition four_digit_year :: "date \<Rightarrow> bool" where
  "four_digit_year dt = (0 \<le> fst dt \<and> fst dt \<le> 9999)"

definition text_dates :: "date row \<Rightarrow> bool" where
  "text_dates s =
     (starts_with_month s \<and> four_digit_year (r_start_date s)
      \<and> (case r_end_date s of None \<Rightarrow> True | Some e \<Rightarrow> four_digit_year e))"

text \<open>Requests for the concrete runs.\<close>

definition total_request :: "string \<Rightarrow> string \<Rightarrow> TotalCostRequest" where
  "total_request s e = \<lparr>t_UserID = None, t_ServiceName = None, t_StartDate = s, t_EndDate = e\<rparr>"

definition cost_filter :: "'d \<Rightarrow> 'd \<Rightarrow> 'd TotalCostFilter" where
  "cost_filter s e = \<lparr>tf_UserID = None, tf_ServiceName = None, tf_StartDate = s, tf_EndDate = e\<rparr>"

definition sub_mid_month :: "date row" where
  "sub_mid_month =
     \<lparr>r_id = 3, r_service_name = ''Yandex Plus'', r_price = 400, r_user_id = 7,
      r_start_date = (2023, 1, 15), r_end_date = Some (2023, 3, 15),
      r_created_at = 30, r_updated_at = 30\<rparr>"

definition sub_other_user :: "date row" where
  "sub_other_user =
     \<lparr>r_id = 4, r_service_name = ''Yandex Plus'', r_price = 300, r_user_id = 8,
      r_start_date = (2023, 1, 1), r_end_date = Some (2023, 3, 1),
      r_created_at = 40, r_updated_at = 40\<rparr>"

definition user7 :: string where
  "user7 = ''00000000-0000-0000-0000-000000000007''"

definition total_filtered :: TotalCostRequest where
  "total_filtered =
     \<lparr>t_UserID = Some user7, t_ServiceName = Some ''plus'',
      t_StartDate = ''2023-01-01'', t_EndDate = ''2023-06-01''\<rparr>"


definition sub_dec_jan :: "date row" where
  "sub_dec_jan =
     \<lparr>r_id = 5, r_service_name = ''Netflix'', r_price = 400, r_user_id = 7,
      r_start_date = (2023, 12, 1), r_end_date = Some (2024, 1, 1),
      r_created_at = 50, r_updated_at = 50\<rparr>"

definition start_letters :: UpdateSubscriptionRequest where
  "start_letters = \<lparr>u_ServiceName = None, u_Price = None, u_StartDate = Some ''abcd-ef-gh'',
                    u_EndDate = None\<rparr>"

definition create_letters :: CreateSubscriptionRequest where
  "create_letters =
     \<lparr>c_ServiceName = ''Netflix'', c_Price = 400, c_UserID = 7,
      c_StartDate = ''abcd-ef-gh'', c_EndDate = None\<rparr>"

definition create_reversed :: CreateSubscriptionRequest where
  "create_reversed =
     \<lparr>c_ServiceName = ''Netflix'', c_Price = 400, c_UserID = 7,
      c_StartDate = ''2023-03-01'', c_EndDate = Some ''2023-01-01''\<rparr>"

definition list_request :: "string option \<Rightarrow> int \<Rightarrow> int \<Rightarrow> ListSubscriptionsRequest" where
  "list_request u l off = \<lparr>l_UserID = u, l_ServiceName = None, l_Limit = l, l_Offset = off\<rparr>"

definition start_malformed :: UpdateSubscriptionRequest where
  "start_malformed = \<lparr>u_ServiceName = None, u_Price = None, u_StartDate = Some ''2023-01'',
                      u_EndDate = None\<rparr>"

section \<open>Facts about the store, the repository and the service\<close>

lemma find_filter_neq: "find (\<lambda>s. r_id s = i) (filter (\<lambda>s. r_id s \<noteq> i) xs) = None"
  by (induction xs) auto

lemma find_id_None_iff: "(find (\<lambda>s. r_id s = i) xs = None) = (i \<notin> r_id ` set xs)"
  by (induction xs) auto

lemma st_rows_logged [simp]: "st_rows (logged q st) = st_rows st"
  by (simp add: logged_def)

lemma find_map_update:
  assumes "find (\<lambda>s. r_id s = i) xs = Some cur" and "\<And>r. r_id (f r) = r_id r"
  shows "find (\<lambda>s. r_id s = i) (map (\<lambda>r. if r_id r = i then f r else r) xs) = Some (f cur)"
  using assms by (induction xs) (auto split: if_splits)

lemma filter_map_update:
  assumes "\<And>r. r_id (f r) = r_id r"
  shows "filter (\<lambda>s. r_id s \<noteq> i) (map (\<lambda>r. if r_id r = i then f r else r) xs)
         = filter (\<lambda>s. r_id s \<noteq> i) xs"
  using assms by (induction xs) auto

lemma validateDateFormat_shape:
  "validateDateFormat s = (if date_shape s then Inr () else Inl InvalidFormat)"
  by (auto simp: validateDateFormat_def date_shape_def Let_def)

lemma repository_GetByID_eq:
  "repository_GetByID x i st =
     (case find (\<lambda>s. r_id s = i) (st_rows st) of
        None \<Rightarrow> Inl NoRows | Some s \<Rightarrow> Inr (convertToSubscription x s),
      logged QGetSubscription st)"
  by (simp add: repository_GetByID_def sql_GetSubscription_def split: option.splits)

lemma repository_Delete_eq:
  "repository_Delete i st =
     (Inr (), (logged QDeleteSubscription st)\<lparr>st_rows := filter (\<lambda>s. r_id s \<noteq> i) (st_rows st)\<rparr>)"
  by (simp add: repository_Delete_def sql_DeleteSubscription_def)

lemma service_Delete_eq:
  "service_Delete x i st =
     (if i \<in> r_id ` set (st_rows st)
      then (Inr (), (logged QDeleteSubscription (logged QGetSubscription st))
                      \<lparr>st_rows := filter (\<lambda>s. r_id s \<noteq> i) (st_rows st)\<rparr>)
      else (Inl NotFound, logged QGetSubscription st))"
proof (cases "find (\<lambda>s. r_id s = i) (st_rows st)")
  case None
  then show ?thesis
    using find_id_None_iff [of i "st_rows st"]
    by (simp add: service_Delete_def repository_GetByID_eq)
next
  case (Some s)
  then have "i \<in> r_id ` set (st_rows st)"
    using find_id_None_iff [of i "st_rows st"] by simp
  with Some show ?thesis
    by (simp add: service_Delete_def repository_GetByID_eq repository_Delete_eq)
qed

lemma sql_Update_eq:
  assumes "find (\<lambda>s. r_id s = i) (st_rows st) = Some cur"
  shows "sql_UpdateSubscription x now i sn pr sd ed st =
     (if table_check x (update_row now sn pr sd ed cur)
      then (Inr (update_row now sn pr sd ed cur),
            (logged QUpdateSubscription st)\<lparr>st_rows :=
               map (\<lambda>r. if r_id r = i then update_row now sn pr sd ed r else r) (st_rows st)\<rparr>)
      else (Inl StorageFailure, logged QUpdateSubscription st))"
  using assms by (simp add: sql_UpdateSubscription_def Let_def)

lemma repository_Update_absent:
  assumes "find (\<lambda>s. r_id s = i) (st_rows st) = None"
  shows "repository_Update x now i req st = (Inl NoRows, logged QGetSubscription st)"
  using assms by (simp add: repository_Update_def sql_GetSubscription_def)

lemma repository_Update_found:
  assumes "find (\<lambda>s. r_id s = i) (st_rows st) = Some cur"
  shows "repository_Update x now i req st =
     (if scan_fails x (u_StartDate req) \<or> scan_fails x (u_EndDate req)
      then (Inl ScanFailure, logged QGetSubscription st)
      else if table_check x (written_row x now req cur cur)
      then (Inr (convertToSubscription x (written_row x now req cur cur)),
            (logged QUpdateSubscription (logged QGetSubscription st))\<lparr>st_rows :=
               map (\<lambda>r. if r_id r = i then written_row x now req cur r else r) (st_rows st)\<rparr>)
      else (Inl StorageFailure, logged QUpdateSubscription (logged QGetSubscription st)))"
proof -
  have f: "find (\<lambda>s. r_id s = i) (st_rows (logged QGetSubscription st)) = Some cur"
    using assms by simp
  show ?thesis
    using assms
    by (simp add: repository_Update_def sql_GetSubscription_def Let_def sql_Update_eq [OF f]
        scan_fails_def written_row_def split: option.splits)
qed

lemma service_Update_absent:
  assumes "find (\<lambda>s. r_id s = i) (st_rows st) = None"
  shows "service_Update x now i req st = (Inl NotFound, logged QGetSubscription st)"
  using assms by (simp add: service_Update_def repository_GetByID_def sql_GetSubscription_def)

lemma service_Update_found:
  assumes "find (\<lambda>s. r_id s = i) (st_rows st) = Some cur"
  shows "service_Update x now i req st =
     (if bad_shape (u_StartDate req) \<or> bad_shape (u_EndDate req)
      then (Inl InvalidFormat, logged QGetSubscription st)
      else repository_Update x now i req (logged QGetSubscription st))"
  using assms
  by (simp add: service_Update_def repository_GetByID_def sql_GetSubscription_def
      validateDateFormat_shape bad_shape_def split: option.splits)

lemma r_id_written_row [simp]: "r_id (written_row x now req cur r) = r_id r"
  by (simp add: written_row_def update_row_def)

lemma service_Update_Inr:
  assumes "find (\<lambda>s. r_id s = i) (st_rows st) = Some old"
      and "service_Update x now i req st = (Inr sub, st')"
  shows "sub = convertToSubscription x (written_row x now req old old)"
    and "st_rows st' = map (\<lambda>r. if r_id r = i then written_row x now req old r else r) (st_rows st)"
    and "\<not> scan_fails x (u_StartDate req)" and "\<not> scan_fails x (u_EndDate req)"
    and "\<not> bad_shape (u_StartDate req)" and "\<not> bad_shape (u_EndDate req)"
proof -
  have f: "find (\<lambda>s. r_id s = i) (st_rows (logged QGetSubscription st)) = Some old"
    using assms(1) by simp
  note eq = assms(2) [unfolded service_Update_found [OF assms(1)] repository_Update_found [OF f]]
  from eq show "sub = convertToSubscription x (written_row x now req old old)"
    by (auto split: if_splits)
  from eq show "st_rows st' =
      map (\<lambda>r. if r_id r = i then written_row x now req old r else r) (st_rows st)"
    by (auto split: if_splits)
  from eq show "\<not> scan_fails x (u_StartDate req)" by (auto split: if_splits)
  from eq show "\<not> scan_fails x (u_EndDate req)" by (auto split: if_splits)
  from eq show "\<not> bad_shape (u_StartDate req)" by (auto split: if_splits)
  from eq show "\<not> bad_shape (u_EndDate req)" by (auto split: if_splits)
qed

lemma service_Update_Inl:
  assumes "service_Update x now i req st = (Inl e, st')"
  shows "st_rows st' = st_rows st"
    and "validation_error e \<Longrightarrow>
           e = InvalidFormat \<and> st' = logged QGetSubscription st
           \<or> e = ScanFailure \<and> st' = logged QGetSubscription (logged QGetSubscription st)"
proof -
  show "st_rows st' = st_rows st"
  proof (cases "find (\<lambda>s. r_id s = i) (st_rows st)")
    case None
    with assms show ?thesis by (auto simp: service_Update_absent)
  next
    case (Some old)
    have f: "find (\<lambda>s. r_id s = i) (st_rows (logged QGetSubscription st)) = Some old"
      using Some by simp
    from assms show ?thesis
      unfolding service_Update_found [OF Some] repository_Update_found [OF f]
      by (auto split: if_splits)
  qed
  show "e = InvalidFormat \<and> st' = logged QGetSubscription st
        \<or> e = ScanFailure \<and> st' = logged QGetSubscription (logged QGetSubscription st)"
    if "validation_error e"
  proof (cases "find (\<lambda>s. r_id s = i) (st_rows st)")
    case None
    with assms that show ?thesis by (auto simp: service_Update_absent validation_error_def)
  next
    case (Some old)
    have f: "find (\<lambda>s. r_id s = i) (st_rows (logged QGetSubscription st)) = Some old"
      using Some by simp
    from assms that show ?thesis
      unfolding service_Update_found [OF Some] repository_Update_found [OF f]
      by (auto simp: validation_error_def split: if_splits)
  qed
qed

lemma name_filter_eq:
  "(if (case n of None \<Rightarrow> [] | Some s \<Rightarrow> s) \<noteq> []
    then Some (case n of None \<Rightarrow> [] | Some s \<Rightarrow> s) else None) = name_filter n"
  by (simp add: name_filter_def split: option.splits)

lemma bigint_zero [simp]: "bigint 0 = Inr 0"
  by (simp add: bigint_def)

lemma bigint_eq:
  "bigint n = (if - 9223372036854775808 \<le> n \<and> n \<le> 9223372036854775807
               then Inr n else Inl StorageFailure)"
  by (simp add: bigint_def)

lemma case_result_id [simp]:
  "(case p of (Inl err, st') \<Rightarrow> (Inl err, st') | (Inr v, st') \<Rightarrow> (Inr v, st')) = p"
  by (auto split: prod.splits sum.splits)

lemma repository_CalculateTotalCost_eq:
  "repository_CalculateTotalCost x flt st =
     (case date_Scan x (tf_StartDate flt) of
        None \<Rightarrow> (Inl ScanFailure, st)
      | Some a \<Rightarrow>
          (case date_Scan x (tf_EndDate flt) of
             None \<Rightarrow> (Inl ScanFailure, st)
           | Some b \<Rightarrow>
               (bigint (sum_list (map (\<lambda>(subscription_id, price, months_count). price * months_count)
                          (subscription_costs x (tf_UserID flt) (name_filter (tf_ServiceName flt))
                             (generate_series a b) (st_rows st)))),
                logged QCalculateTotalCost st)))"
  by (simp add: repository_CalculateTotalCost_def sql_CalculateTotalCost_def Let_def
      name_filter_eq cong: option.case_cong)

lemma service_CalculateTotalCost_eq:
  "service_CalculateTotalCost x req st =
     (if \<not> date_shape (t_StartDate req) \<or> \<not> date_shape (t_EndDate req)
      then (Inl InvalidFormat, st)
      else case user_filter x (t_UserID req) of
             Inl err \<Rightarrow> (Inl err, st)
           | Inr u \<Rightarrow>
               (case repository_CalculateTotalCost x
                       \<lparr>tf_UserID = u, tf_ServiceName = t_ServiceName req,
                        tf_StartDate = t_StartDate req, tf_EndDate = t_EndDate req\<rparr> st of
                  (Inl err, st') \<Rightarrow> (Inl err, st')
                | (Inr totalCost, st') \<Rightarrow> (Inr \<lparr>TotalCost = totalCost\<rparr>, st')))"
  by (auto simp: service_CalculateTotalCost_def validateDateFormat_shape Let_def
      user_filter_def split: option.splits sum.splits)

lemma repository_CalculateTotalCost_v1_eq:
  "repository_CalculateTotalCost_v1 x flt st =
     (bigint (sum_list (map r_price
                (filter (\<lambda>s. sql_filter x (tf_UserID flt)
                                (Some (case tf_ServiceName flt of None \<Rightarrow> [] | Some n \<Rightarrow> n)) s
                             \<and> r_start_date s \<le> tf_EndDate flt
                             \<and> (case r_end_date s of None \<Rightarrow> True
                                 | Some e \<Rightarrow> tf_StartDate flt \<le> e))
                   (st_rows st)))),
      logged QCalculateTotalCost st)"
  by (simp add: repository_CalculateTotalCost_v1_def sql_CalculateTotalCost_v1_def Let_def)

lemma repository_List_eq:
  "repository_List x flt st =
     (if int32 (lf_Limit flt) < 0 \<or> int32 (lf_Offset flt) < 0
      then (Inl StorageFailure, logged QListSubscriptions st)
      else (Inr (map (convertToSubscription x)
                   (take (nat (int32 (lf_Limit flt))) (drop (nat (int32 (lf_Offset flt)))
                      (rev (sort_key r_created_at
                         (filter (sql_filter x (lf_UserID flt) (name_filter (lf_ServiceName flt)))
                            (st_rows st)))))),
                 int (length (filter (sql_filter x (lf_UserID flt)
                                        (name_filter (lf_ServiceName flt))) (st_rows st)))),
            logged QCountSubscriptions (logged QListSubscriptions st)))"
  by (simp add: repository_List_def sql_ListSubscriptions_def sql_CountSubscriptions_def
      Let_def name_filter_eq)

lemma service_List_eq:
  "service_List x req st =
     (case user_filter x (l_UserID req) of
        Inl err \<Rightarrow> (Inl err, req\<lparr>l_Limit := clamp_limit (l_Limit req)\<rparr>, st)
      | Inr u \<Rightarrow>
          (fst (repository_List x
                  \<lparr>lf_UserID = u, lf_ServiceName = l_ServiceName req,
                   lf_Limit = clamp_limit (l_Limit req), lf_Offset = l_Offset req\<rparr> st),
           req\<lparr>l_Limit := clamp_limit (l_Limit req)\<rparr>,
           snd (repository_List x
                  \<lparr>lf_UserID = u, lf_ServiceName = l_ServiceName req,
                   lf_Limit = clamp_limit (l_Limit req), lf_Offset = l_Offset req\<rparr> st)))"
  by (auto simp: service_List_def Let_def user_filter_def clamp_limit_def
      split: option.splits prod.splits sum.splits)

lemma user_filter_None [simp]: "user_filter x None = Inr None"
  by (simp add: user_filter_def)


lemma int32_id: "- 2147483648 \<le> n \<Longrightarrow> n < 2147483648 \<Longrightarrow> int32 n = n"
  by (simp add: int32_def)

lemma int32_small [simp]: "int32 0 = 0" "int32 20 = 20" "int32 100 = 100"
  by (simp_all add: int32_def)

lemma clamp_limit_range: "1 \<le> clamp_limit l \<and> clamp_limit l \<le> 100"
  by (simp add: clamp_limit_def)

lemma int32_clamp_limit [simp]: "int32 (clamp_limit l) = clamp_limit l"
  using clamp_limit_range [of l] by (intro int32_id) auto

lemma contains_ci_Nil [simp]: "contains_ci [] t"
  by (auto simp: contains_ci_def list_ex_iff)

lemma sql_filter_spec:
  assumes "ilike_searches x name tbl" and "s \<in> set tbl"
  shows "sql_filter x u (name_filter name) s = filter_matches u name s"
  using assms
  by (auto simp: sql_filter_def filter_matches_def name_filter_def ilike_searches_def
      list_all_iff split: option.splits)


lemma sql_filter_as_text [simp]: "sql_filter x u n (as_text repr s) = sql_filter x u n s"
  by (simp add: sql_filter_def as_text_def split: option.splits)

section \<open>The instance on concrete values\<close>

lemma ext0_simps [simp]:
  "uuid_Parse ext0 = uuid_Parse0" "date_Scan ext0 = date_Scan0"
  "date_Format ext0 = date_Format0" "ilike ext0 = ilike0" "table_check ext0 = table_check0"
  by (simp_all add: ext0_def)

lemma find_sub_jan_mar:
  "find (\<lambda>s. r_id s = 1) (st_rows (store_of [sub_jan_mar])) = Some sub_jan_mar"
  by (simp add: store_of_def sub_jan_mar_def)

lemma distinct_one_row [simp]: "distinct (map r_id (st_rows (store_of [s])))"
  by (simp add: store_of_def)

lemma scan0_dates:
  "date_Scan0 ''2023-01-01'' = Some (2023, 1, 1)"
  "date_Scan0 ''2023-02-01'' = Some (2023, 2, 1)"
  "date_Scan0 ''2023-03-01'' = Some (2023, 3, 1)"
  "date_Scan0 ''2023-06-01'' = Some (2023, 6, 1)"
  by code_simp+

lemma scan0_2024: "date_Scan0 ''2024-01-01'' = Some (2024, 1, 1)"
  by code_simp

lemma letters_dates: "date_shape ''abcd-ef-gh''" "date_Scan0 ''abcd-ef-gh'' = None"
  by (simp add: date_shape_def, code_simp)

lemma format0_dates:
  "date_Format0 (2023, 1, 1) = ''2023-01-01''"
  "date_Format0 (2023, 3, 1) = ''2023-03-01''"
  "date_Format0 (2023, 5, 1) = ''2023-05-01''"
  "date_Format0 (2023, 6, 1) = ''2023-06-01''"
  by code_simp+

lemma shape_dates:
  "date_shape ''2023-01-01''" "date_shape ''2023-02-01''" "date_shape ''2023-03-01''"
  "date_shape ''2023-06-01''" "\<not> date_shape ''2023-01''"
  by (simp_all add: date_shape_def)

lemma str_lt: "''2023-01-01'' < ''2023-03-01''"
  by simp

lemma date_lt: "((2023, 1, 1) :: date) < (2023, 3, 1)" "((2023, 3, 1) :: date) < (2023, 6, 1)"
  "((2023, 1, 1) :: date) \<le> (2023, 3, 1)"
  by (simp_all add: less_prod_def less_eq_prod_def)

lemma parse_nobody: "uuid_Parse0 ''nobody'' = None"
  by code_simp

lemma parse_user7: "uuid_Parse0 user7 = Some 7"
  by code_simp

lemma user_filter_user7: "user_filter ext0 (Some user7) = Inr (Some 7)"
proof -
  have "user7 \<noteq> []" by (simp add: user7_def)
  then show ?thesis by (simp add: user_filter_def parse_user7)
qed

lemma ilike0_empty_pattern: "ilike0 t ''%%''"
  by (auto simp: ilike0_def list_ex_iff)

lemma ilike0_pattern: "ilike0 t (''%'' @ n @ ''%'') = contains_ci n t"
  by (simp add: ilike0_def contains_ci_def Let_def)

lemma ilike_searches_ext0 [simp]: "ilike_searches ext0 name tbl"
  using ilike0_pattern by (auto simp: ilike_searches_def list_all_iff split: option.splits)

lemma plus_names: "ilike0 ''Yandex Plus'' ''%plus%''" "\<not> ilike0 ''Netflix'' ''%plus%''"
  by code_simp+


lemma month_starts:
  "month_start (2023, 1, 1)" "month_start (2023, 2, 1)"
  "valid_date (2023, 2, 1)" "valid_date (2023, 3, 1)" "valid_date (2023, 6, 1)"
  by (simp_all add: month_start_def valid_date_def days_in_month_def)

lemma rows_start_with_month:
  "starts_with_month sub_jan_mar" "starts_with_month sub_may_open"
  "starts_with_month sub_other_user"
  by (simp_all add: starts_with_month_def month_start_def valid_date_def days_in_month_def
      sub_jan_mar_def sub_may_open_def sub_other_user_def)

lemma rows_text_dates:
  "list_all text_dates (st_rows (store_of [sub_jan_mar, sub_other_user, sub_may_open]))"
  by (simp add: store_of_def text_dates_def starts_with_month_def month_start_def
      valid_date_def four_digit_year_def days_in_month_def sub_jan_mar_def sub_other_user_def
      sub_may_open_def)

lemma text_of_rows:
  "year_month (2023, 1, 1) = ''2023-01''"
  "year_month (2023, 2, 1) = ''2023-02''"
  "year_month (2023, 3, 1) = ''2023-03''"
  "year_month (2023, 5, 1) = ''2023-05''"
  "month_year (2023, 12, 1) = ''12-2023''"
  "month_year (2024, 1, 1) = ''01-2024''"
  by code_simp+

section \<open>The validator checks the shape only\<close>

text \<open>
  C4, as stated, fails: a string with letters in its year and month segments passes the
  validator, although the claim says that it fails with \<open>InvalidFormat\<close>.
\<close>

theorem validateDateFormat_letters_counterexample:
  "validateDateFormat ''abcd-ef-gh'' = Inr () \<and> \<not> numeric_year_month ''abcd-ef-gh''"
  by (simp add: validateDateFormat_def numeric_year_month_def is_digit_def)

text \<open>
  C4, amended: the validator fails with \<open>InvalidFormat\<close> exactly when the length is
  not ten or one of the characters at positions 4 and 7 is not a dash, it has no other
  failure, and it succeeds on every string of the canonical form \<open>YYYY-MM-DD\<close>; it
  does not look at the characters of the year, month and day segments.
\<close>

theorem validateDateFormat_exact:
  "(validateDateFormat s = Inl InvalidFormat) = (\<not> date_shape s)
   \<and> (validateDateFormat s = Inr ()) = date_shape s
   \<and> (canonical_date s \<longrightarrow> validateDateFormat s = Inr ())"
  by (simp add: validateDateFormat_shape canonical_date_def)

theorem validateDateFormat_exact_witness:
  "canonical_date ''2023-01-01'' \<and> validateDateFormat ''2023-01-01'' = Inr ()
   \<and> \<not> date_shape ''2023-01'' \<and> validateDateFormat ''2023-01'' = Inl InvalidFormat"
  using validateDateFormat_exact [of "''2023-01-01''"] validateDateFormat_exact [of "''2023-01''"]
  by (simp add: canonical_date_def date_shape_def is_digit_def)

section \<open>Delete\<close>

text \<open>
  C3, as stated, fails for the \<open>Delete\<close> of the service: on an identifier with no
  stored row it returns the error \<open>subscription not found\<close>, and the second of two
  deletions of a stored identifier returns that error after the first returned none.
\<close>

theorem service_Delete_absent_counterexample:
  "fst (service_Delete ext0 1 (store_of [])) = Inl NotFound
   \<and> fst (service_Delete ext0 1 (store_of [sub_jan_mar])) = Inr ()
   \<and> fst (service_Delete ext0 1 (snd (service_Delete ext0 1 (store_of [sub_jan_mar]))))
       = Inl NotFound"
  by (simp add: service_Delete_eq store_of_def sub_jan_mar_def)

text \<open>
  C3, amended: \<open>Delete\<close> of the repository is idempotent: it returns no error whether
  or not a row has the identifier, it removes the rows of that identifier, and a second
  call returns no error and leaves the table as the first left it. \<open>Delete\<close> of the
  service looks the identifier up first: it returns no error exactly when a row has the
  identifier and \<open>NotFound\<close> otherwise, so a second deletion of the same identifier
  returns \<open>NotFound\<close>.
\<close>

theorem Delete_idempotent_in_repository_only:
  "fst (repository_Delete i st) = Inr ()
   \<and> st_rows (snd (repository_Delete i st)) = filter (\<lambda>s. r_id s \<noteq> i) (st_rows st)
   \<and> fst (repository_Delete i (snd (repository_Delete i st))) = Inr ()
   \<and> st_rows (snd (repository_Delete i (snd (repository_Delete i st))))
       = st_rows (snd (repository_Delete i st))
   \<and> fst (service_Delete x i st)
       = (if i \<in> r_id ` set (st_rows st) then Inr () else Inl NotFound)
   \<and> fst (service_Delete x i (snd (service_Delete x i st))) = Inl NotFound"
  by (auto simp: repository_Delete_eq service_Delete_eq)

theorem Delete_idempotent_in_repository_only_witness:
  "fst (repository_Delete 1 (store_of [sub_jan_mar])) = Inr ()
   \<and> st_rows (snd (repository_Delete 1 (store_of [sub_jan_mar]))) = []
   \<and> fst (repository_Delete 1 (snd (repository_Delete 1 (store_of [sub_jan_mar])))) = Inr ()
   \<and> fst (service_Delete ext0 1 (store_of [sub_jan_mar])) = Inr ()
   \<and> fst (service_Delete ext0 1 (snd (service_Delete ext0 1 (store_of [sub_jan_mar]))))
       = Inl NotFound"
  using Delete_idempotent_in_repository_only [of 1 "store_of [sub_jan_mar]" ext0]
  by (simp add: store_of_def sub_jan_mar_def)

section \<open>Update keeps what the request omits\<close>

lemma run_update_price_only:
  "service_Update ext0 99 1 price_only (store_of [sub_jan_mar]) =
     (Inr \<lparr>s_ID = 1, s_ServiceName = ''Yandex Plus'', s_Price = 500, s_UserID = 7,
           s_StartDate = ''2023-01-01'', s_EndDate = Some ''2023-03-01'',
           s_CreatedAt = 10, s_UpdatedAt = 99\<rparr>,
      \<lparr>st_rows = [\<lparr>r_id = 1, r_service_name = ''Yandex Plus'', r_price = 500, r_user_id = 7,
                    r_start_date = (2023, 1, 1), r_end_date = Some (2023, 3, 1),
                    r_created_at = 10, r_updated_at = 99\<rparr>],
       st_log = [QGetSubscription, QGetSubscription, QUpdateSubscription]\<rparr>)"
proof -
  have f: "find (\<lambda>s. r_id s = 1) (st_rows (logged QGetSubscription (store_of [sub_jan_mar])))
           = Some sub_jan_mar"
    using find_sub_jan_mar by simp
  show ?thesis
    unfolding service_Update_found [OF find_sub_jan_mar] repository_Update_found [OF f]
    by (simp add: price_only_def bad_shape_def scan_fails_def written_row_def update_row_def
        coalesce_def table_check0_def sub_jan_mar_def int32_def
        convertToSubscription_def format0_dates logged_def store_of_def del: One_nat_def)
qed

lemma run_update_start_june:
  "service_Update ext0 99 1 start_june (store_of [sub_jan_mar]) =
     (Inr \<lparr>s_ID = 1, s_ServiceName = ''Yandex Plus'', s_Price = 400, s_UserID = 7,
           s_StartDate = ''2023-06-01'', s_EndDate = Some ''2023-03-01'',
           s_CreatedAt = 10, s_UpdatedAt = 99\<rparr>,
      \<lparr>st_rows = [\<lparr>r_id = 1, r_service_name = ''Yandex Plus'', r_price = 400, r_user_id = 7,
                    r_start_date = (2023, 6, 1), r_end_date = Some (2023, 3, 1),
                    r_created_at = 10, r_updated_at = 99\<rparr>],
       st_log = [QGetSubscription, QGetSubscription, QUpdateSubscription]\<rparr>)"
proof -
  have f: "find (\<lambda>s. r_id s = 1) (st_rows (logged QGetSubscription (store_of [sub_jan_mar])))
           = Some sub_jan_mar"
    using find_sub_jan_mar by simp
  show ?thesis
    unfolding service_Update_found [OF find_sub_jan_mar] repository_Update_found [OF f]
    by (simp add: start_june_def bad_shape_def scan_fails_def written_row_def update_row_def
        coalesce_def table_check0_def sub_jan_mar_def int32_def shape_dates
        convertToSubscription_def format0_dates scan0_dates logged_def store_of_def
        del: One_nat_def)
qed

text \<open>
  C9: for every existing row and every update request, the row found under the
  identifier after \<open>Update\<close> of the service has, in every field that the request does
  not supply, the value it had before; the identifier, the user and the creation time
  are kept as well, and the rows of other identifiers are untouched. (A failed update
  leaves the row as it was; a successful one returns the conversion of the new row.) In
  particular a request that supplies the price only leaves the name, the start date and
  the end date as they were.
\<close>

theorem Update_keeps_unsupplied_fields:
  assumes "find (\<lambda>s. r_id s = i) (st_rows st) = Some old"
  shows "\<exists>new. find (\<lambda>s. r_id s = i) (st_rows (snd (service_Update x now i req st))) = Some new
           \<and> (u_ServiceName req = None \<longrightarrow> r_service_name new = r_service_name old)
           \<and> (u_Price req = None \<longrightarrow> r_price new = r_price old)
           \<and> (u_StartDate req = None \<longrightarrow> r_start_date new = r_start_date old)
           \<and> (u_EndDate req = None \<longrightarrow> r_end_date new = r_end_date old)
           \<and> r_id new = r_id old \<and> r_user_id new = r_user_id old
           \<and> r_created_at new = r_created_at old
           \<and> (case fst (service_Update x now i req st) of
                 Inl err \<Rightarrow> new = old
               | Inr sub \<Rightarrow> sub = convertToSubscription x new)
           \<and> filter (\<lambda>s. r_id s \<noteq> i) (st_rows (snd (service_Update x now i req st)))
               = filter (\<lambda>s. r_id s \<noteq> i) (st_rows st)"
proof (cases "service_Update x now i req st")
  case (Pair res st')
  show ?thesis
  proof (cases res)
    case (Inl err)
    with Pair have "st_rows st' = st_rows st" using service_Update_Inl(1) by blast
    with Pair Inl assms show ?thesis by (intro exI [of _ old]) simp
  next
    case (Inr sub)
    note r = service_Update_Inr [OF assms Pair [unfolded Inr]]
    have fnd: "find (\<lambda>s. r_id s = i) (st_rows st') = Some (written_row x now req old old)"
      unfolding r(2) by (rule find_map_update [OF assms]) simp
    have oth: "filter (\<lambda>s. r_id s \<noteq> i) (st_rows st') = filter (\<lambda>s. r_id s \<noteq> i) (st_rows st)"
      unfolding r(2) by (rule filter_map_update) simp
    show ?thesis
      using Pair Inr fnd oth r(1)
      by (intro exI [of _ "written_row x now req old old"])
         (simp add: written_row_def update_row_def coalesce_def split: option.splits)
  qed
qed

theorem Update_keeps_unsupplied_fields_witness:
  "find (\<lambda>s. r_id s = 1) (st_rows (store_of [sub_jan_mar])) = Some sub_jan_mar
   \<and> u_ServiceName price_only = None \<and> u_StartDate price_only = None
   \<and> u_EndDate price_only = None
   \<and> map (\<lambda>s. (r_service_name s, r_price s, r_start_date s, r_end_date s))
        (st_rows (snd (service_Update ext0 99 1 price_only (store_of [sub_jan_mar]))))
      = [(''Yandex Plus'', 500, (2023, 1, 1), Some (2023, 3, 1))]
   \<and> r_service_name sub_jan_mar = ''Yandex Plus'' \<and> r_start_date sub_jan_mar = (2023, 1, 1)
   \<and> r_end_date sub_jan_mar = Some (2023, 3, 1)"
  using Update_keeps_unsupplied_fields [OF find_sub_jan_mar, of ext0 99 price_only]
    find_sub_jan_mar
  unfolding run_update_price_only
  by (simp add: price_only_def sub_jan_mar_def)

text \<open>
  C10: for an existing row whose end date is set, the row has an end date after every
  \<open>Update\<close> of the service, whatever the request: a failed update leaves the row as it
  was, a successful one that omits the end date keeps the prior end date, and a
  successful one that supplies an end date stores the date read from it.
\<close>

theorem Update_never_clears_end_date:
  assumes "find (\<lambda>s. r_id s = i) (st_rows st) = Some old"
      and "r_end_date old \<noteq> None"
  shows "\<exists>new. find (\<lambda>s. r_id s = i) (st_rows (snd (service_Update x now i req st))) = Some new
           \<and> r_end_date new \<noteq> None
           \<and> (case fst (service_Update x now i req st) of
                 Inl err \<Rightarrow> new = old
               | Inr sub \<Rightarrow>
                   (case u_EndDate req of
                      None \<Rightarrow> r_end_date new = r_end_date old
                    | Some s \<Rightarrow> r_end_date new = date_Scan x s))"
proof (cases "service_Update x now i req st")
  case (Pair res st')
  show ?thesis
  proof (cases res)
    case (Inl err)
    with Pair have "st_rows st' = st_rows st" using service_Update_Inl(1) by blast
    with Pair Inl assms show ?thesis by (intro exI [of _ old]) simp
  next
    case (Inr sub)
    note r = service_Update_Inr [OF assms(1) Pair [unfolded Inr]]
    have fnd: "find (\<lambda>s. r_id s = i) (st_rows st') = Some (written_row x now req old old)"
      unfolding r(2) by (rule find_map_update [OF assms(1)]) simp
    show ?thesis
    proof (cases "u_EndDate req")
      case None
      with Pair Inr fnd assms(2) show ?thesis
        by (intro exI [of _ "written_row x now req old old"])
           (auto simp: written_row_def update_row_def coalesce_def)
    next
      case (Some s)
      with r(4) obtain d where "date_Scan x s = Some d"
        by (auto simp: scan_fails_def)
      with Some Pair Inr fnd show ?thesis
        by (intro exI [of _ "written_row x now req old old"])
           (simp add: written_row_def update_row_def coalesce_def)
    qed
  qed
qed

theorem Update_never_clears_end_date_witness:
  "find (\<lambda>s. r_id s = 1) (st_rows (store_of [sub_jan_mar])) = Some sub_jan_mar
   \<and> r_end_date sub_jan_mar = Some (2023, 3, 1)
   \<and> u_EndDate start_june = None
   \<and> map r_end_date (st_rows (snd (service_Update ext0 99 1 start_june (store_of [sub_jan_mar]))))
      = [Some (2023, 3, 1)]"
proof -
  have e: "r_end_date sub_jan_mar \<noteq> None" by (simp add: sub_jan_mar_def)
  show ?thesis
    using Update_never_clears_end_date [OF find_sub_jan_mar e, of ext0 99 start_june]
      find_sub_jan_mar
    unfolding run_update_start_june
    by (simp add: start_june_def sub_jan_mar_def)
qed

section \<open>Update and the order of the two dates\<close>

lemma service_Create_rejects_reversed:
  assumes "c_EndDate req = Some e" and "e < c_StartDate req"
  shows "service_Create x new_id now req st = (Inl InvalidFormat, st)
         \<or> service_Create x new_id now req st = (Inl InvalidRange, st)"
  using assms
  by (simp add: service_Create_def validateDateFormat_shape)

text \<open>
  C5 fails in the code for \<open>Update\<close>: the stored subscription that runs from January
  to March 2023 satisfies the invariant, the request that supplies the start date June
  2023 alone is accepted, and the row it leaves ends before it starts. \<open>Create\<close> does
  reject an end date before the start date (\<open>service_Create_rejects_reversed\<close>);
  \<open>Update\<close> has no such check.
\<close>

theorem Update_breaks_end_after_start:
  "r_start_date sub_jan_mar = (2023, 1, 1) \<and> r_end_date sub_jan_mar = Some (2023, 3, 1)
   \<and> ((2023, 1, 1) :: date) \<le> (2023, 3, 1)
   \<and> service_Update ext0 99 1 start_june (store_of [sub_jan_mar]) =
     (Inr \<lparr>s_ID = 1, s_ServiceName = ''Yandex Plus'', s_Price = 400, s_UserID = 7,
           s_StartDate = ''2023-06-01'', s_EndDate = Some ''2023-03-01'',
           s_CreatedAt = 10, s_UpdatedAt = 99\<rparr>,
      \<lparr>st_rows = [\<lparr>r_id = 1, r_service_name = ''Yandex Plus'', r_price = 400, r_user_id = 7,
                    r_start_date = (2023, 6, 1), r_end_date = Some (2023, 3, 1),
                    r_created_at = 10, r_updated_at = 99\<rparr>],
       st_log = [QGetSubscription, QGetSubscription, QUpdateSubscription]\<rparr>)
   \<and> ((2023, 3, 1) :: date) < (2023, 6, 1)"
  using run_update_start_june date_lt by (simp add: sub_jan_mar_def)

section \<open>Validation and storage calls\<close>

lemma repository_Create_Inl_store:
  assumes "repository_Create x new_id now req st = (Inl e, st')"
  shows "e = ScanFailure \<and> st' = st
         \<or> e = StorageFailure \<and> st' = logged QCreateSubscription st"
  using assms
  by (auto simp: repository_Create_def sql_CreateSubscription_def Let_def
      split: option.splits sum.splits if_splits)

lemma service_Create_Inl:
  assumes "service_Create x new_id now req st = (Inl e, st')" and "validation_error e"
  shows "st' = st"
  using assms repository_Create_Inl_store [of x new_id now req st e st']
  by (auto simp: service_Create_def validation_error_def split: option.splits sum.splits if_splits)

lemma service_List_Inl:
  assumes "service_List x req st = (Inl e, req', st')"
  shows "e = InvalidIdentifier \<and> st' = st
         \<or> e = StorageFailure \<and> st' = logged QListSubscriptions st"
  using assms
  by (auto simp: service_List_eq repository_List_eq user_filter_def
      split: if_splits option.splits sum.splits)

lemma service_Delete_Inl:
  assumes "service_Delete x i st = (Inl e, st')"
  shows "e = NotFound"
  using assms by (auto simp: service_Delete_eq split: if_splits)

lemma service_CalculateTotalCost_Inl:
  assumes "service_CalculateTotalCost x req st = (Inl e, st')"
  shows "e = InvalidFormat \<and> st' = st \<or> e = InvalidIdentifier \<and> st' = st
         \<or> e = ScanFailure \<and> st' = st
         \<or> e = StorageFailure \<and> st' = logged QCalculateTotalCost st"
  using assms
  by (auto simp: service_CalculateTotalCost_eq repository_CalculateTotalCost_eq
      user_filter_def bigint_def split: if_splits option.splits sum.splits)

lemma run_update_malformed:
  "service_Update ext0 99 1 start_malformed (store_of [sub_jan_mar])
   = (Inl InvalidFormat, \<lparr>st_rows = [sub_jan_mar], st_log = [QGetSubscription]\<rparr>)"
  unfolding service_Update_found [OF find_sub_jan_mar]
  by (simp add: start_malformed_def bad_shape_def shape_dates logged_def store_of_def)

lemma run_update_letters:
  "service_Update ext0 99 1 start_letters (store_of [sub_jan_mar])
   = (Inl ScanFailure,
      \<lparr>st_rows = [sub_jan_mar], st_log = [QGetSubscription, QGetSubscription]\<rparr>)"
proof -
  have f: "find (\<lambda>s. r_id s = 1) (st_rows (logged QGetSubscription (store_of [sub_jan_mar])))
           = Some sub_jan_mar"
    using find_sub_jan_mar by simp
  show ?thesis
    unfolding service_Update_found [OF find_sub_jan_mar] repository_Update_found [OF f]
    by (simp add: start_letters_def bad_shape_def scan_fails_def letters_dates logged_def
        store_of_def)
qed

lemma run_create_reversed:
  "service_Create ext0 2 30 create_reversed (store_of []) = (Inl InvalidRange, store_of [])"
  by (simp add: service_Create_def create_reversed_def validateDateFormat_shape shape_dates)

lemma run_create_letters:
  "service_Create ext0 2 30 create_letters (store_of []) = (Inl ScanFailure, store_of [])"
  by (simp add: service_Create_def create_letters_def validateDateFormat_shape letters_dates
      repository_Create_def)

lemma run_total_malformed:
  "service_CalculateTotalCost ext0 (total_request ''2023-01'' ''2023-03'') (store_of [])
   = (Inl InvalidFormat, store_of [])"
  by (simp add: service_CalculateTotalCost_eq total_request_def shape_dates)

lemma run_list_unparsable:
  "service_List ext0 (list_request (Some ''nobody'') 0 0) (store_of [])
   = (Inl InvalidIdentifier, list_request (Some ''nobody'') 20 0, store_of [])"
  by (simp add: service_List_eq list_request_def user_filter_def parse_nobody clamp_limit_def)

text \<open>
  C6, as stated, fails for \<open>Update\<close>, which reads the subscription before it looks at
  the dates of the request. A start date of the wrong shape (\<open>2023-01\<close>) is refused
  with \<open>InvalidFormat\<close> after one \<open>SELECT\<close>; a start date of the right shape that is no
  date (\<open>abcd-ef-gh\<close>) passes the validator and is refused by \<open>pgtype.Date.Scan\<close> in the
  repository after two \<open>SELECT\<close>s, the one of the service and the one of the repository.
\<close>

theorem service_Update_reads_before_validating_counterexample:
  "service_Update ext0 99 1 start_malformed (store_of [sub_jan_mar])
     = (Inl InvalidFormat, \<lparr>st_rows = [sub_jan_mar], st_log = [QGetSubscription]\<rparr>)
   \<and> validation_error InvalidFormat
   \<and> service_Update ext0 99 1 start_letters (store_of [sub_jan_mar])
     = (Inl ScanFailure,
        \<lparr>st_rows = [sub_jan_mar], st_log = [QGetSubscription, QGetSubscription]\<rparr>)
   \<and> validation_error ScanFailure
   \<and> st_log (store_of [sub_jan_mar]) = []"
  using run_update_malformed run_update_letters
  by (simp add: validation_error_def store_of_def)

text \<open>
  C6, amended: a validation error of \<open>Create\<close>, \<open>List\<close> or \<open>CalculateTotalCost\<close> is
  returned with the store as it was, no query run. \<open>Delete\<close> returns no validation
  error. \<open>Update\<close> returns a validation error only after it has read the subscription,
  and never writes: the rows are unchanged, and the log holds one \<open>SELECT\<close> more when
  the validator refuses a date, two more when \<open>pgtype.Date.Scan\<close> refuses it.
\<close>

theorem validation_precedes_writes:
  "(service_Create x new_id now creq st = (Inl e1, st1) \<and> validation_error e1 \<longrightarrow> st1 = st)
   \<and> (service_List x lreq st = (Inl e2, lreq', st2) \<and> validation_error e2 \<longrightarrow> st2 = st)
   \<and> (service_CalculateTotalCost x treq st = (Inl e3, st3) \<and> validation_error e3
        \<longrightarrow> st3 = st)
   \<and> (service_Delete x i st = (Inl e4, st4) \<longrightarrow> \<not> validation_error e4)
   \<and> (service_Update x now i ureq st = (Inl e5, st5) \<and> validation_error e5
        \<longrightarrow> st_rows st5 = st_rows st
            \<and> (e5 = InvalidFormat \<and> st_log st5 = st_log st @ [QGetSubscription]
                \<or> e5 = ScanFailure
                  \<and> st_log st5 = st_log st @ [QGetSubscription, QGetSubscription]))"
proof (intro conjI impI; (elim conjE)?)
  show "st1 = st" if "service_Create x new_id now creq st = (Inl e1, st1)" "validation_error e1"
    using that by (rule service_Create_Inl)
  show "st2 = st" if "service_List x lreq st = (Inl e2, lreq', st2)" "validation_error e2"
    using service_List_Inl [OF that(1)] that(2) by (auto simp: validation_error_def)
  show "st3 = st" if "service_CalculateTotalCost x treq st = (Inl e3, st3)" "validation_error e3"
    using service_CalculateTotalCost_Inl [OF that(1)] that(2)
    by (auto simp: validation_error_def)
  show "\<not> validation_error e4" if "service_Delete x i st = (Inl e4, st4)"
    using service_Delete_Inl [OF that] by (simp add: validation_error_def)
  show "st_rows st5 = st_rows st"
    if "service_Update x now i ureq st = (Inl e5, st5)" "validation_error e5"
    using that(1) by (rule service_Update_Inl(1))
  show "e5 = InvalidFormat \<and> st_log st5 = st_log st @ [QGetSubscription]
        \<or> e5 = ScanFailure \<and> st_log st5 = st_log st @ [QGetSubscription, QGetSubscription]"
    if "service_Update x now i ureq st = (Inl e5, st5)" "validation_error e5"
    using service_Update_Inl(2) [OF that] by (auto simp: logged_def)
qed

theorem validation_precedes_writes_witness:
  "service_Create ext0 2 30 create_reversed (store_of []) = (Inl InvalidRange, store_of [])
   \<and> validation_error InvalidRange
   \<and> service_Create ext0 2 30 create_letters (store_of []) = (Inl ScanFailure, store_of [])
   \<and> validation_error ScanFailure
   \<and> service_List ext0 (list_request (Some ''nobody'') 0 0) (store_of [])
      = (Inl InvalidIdentifier, list_request (Some ''nobody'') 20 0, store_of [])
   \<and> validation_error InvalidIdentifier
   \<and> service_CalculateTotalCost ext0 (total_request ''2023-01'' ''2023-03'') (store_of [])
      = (Inl InvalidFormat, store_of [])
   \<and> validation_error InvalidFormat
   \<and> service_Delete ext0 1 (store_of []) = (Inl NotFound, logged QGetSubscription (store_of []))
   \<and> \<not> validation_error NotFound
   \<and> service_Update ext0 99 1 start_malformed (store_of [sub_jan_mar])
      = (Inl InvalidFormat, \<lparr>st_rows = [sub_jan_mar], st_log = [QGetSubscription]\<rparr>)
   \<and> service_Update ext0 99 1 start_letters (store_of [sub_jan_mar])
      = (Inl ScanFailure,
         \<lparr>st_rows = [sub_jan_mar], st_log = [QGetSubscription, QGetSubscription]\<rparr>)"
  using validation_precedes_writes
          [where x = ext0 and new_id = 2 and now = 30 and creq = create_reversed and st = "store_of []"
             and ?e1.0 = InvalidRange and ?st1.0 = "store_of []"
             and lreq = "list_request (Some ''nobody'') 0 0" and ?e2.0 = InvalidIdentifier
             and lreq' = "list_request (Some ''nobody'') 20 0" and ?st2.0 = "store_of []"
             and treq = "total_request ''2023-01'' ''2023-03''" and ?e3.0 = InvalidFormat
             and ?st3.0 = "store_of []"
             and i = 1 and ?e4.0 = NotFound and ?st4.0 = "logged QGetSubscription (store_of [])"
             and ureq = start_malformed and ?e5.0 = NotFound and ?st5.0 = "store_of []"]
        validation_precedes_writes
          [where x = ext0 and new_id = 2 and now = 30 and creq = create_letters and st = "store_of []"
             and ?e1.0 = ScanFailure and ?st1.0 = "store_of []"
             and lreq = "list_request (Some ''nobody'') 0 0" and ?e2.0 = NotFound
             and lreq' = "list_request (Some ''nobody'') 20 0" and ?st2.0 = "store_of []"
             and treq = "total_request ''2023-01'' ''2023-03''" and ?e3.0 = NotFound
             and ?st3.0 = "store_of []"
             and i = 1 and ?e4.0 = NotFound and ?st4.0 = "store_of []"
             and ureq = start_malformed and ?e5.0 = NotFound and ?st5.0 = "store_of []"]
        validation_precedes_writes
          [where x = ext0 and new_id = 2 and now = 99 and creq = create_reversed and st = "store_of [sub_jan_mar]"
             and ?e1.0 = NotFound and ?st1.0 = "store_of []"
             and lreq = "list_request (Some ''nobody'') 0 0" and ?e2.0 = NotFound
             and lreq' = "list_request (Some ''nobody'') 20 0" and ?st2.0 = "store_of []"
             and treq = "total_request ''2023-01'' ''2023-03''" and ?e3.0 = NotFound
             and ?st3.0 = "store_of []"
             and i = 1 and ?e4.0 = NotFound and ?st4.0 = "store_of []"
             and ureq = start_malformed and ?e5.0 = InvalidFormat and ?st5.0 = "\<lparr>st_rows = [sub_jan_mar], st_log = [QGetSubscription]\<rparr>"]
        validation_precedes_writes
          [where x = ext0 and new_id = 2 and now = 99 and creq = create_reversed and st = "store_of [sub_jan_mar]"
             and ?e1.0 = NotFound and ?st1.0 = "store_of []"
             and lreq = "list_request (Some ''nobody'') 0 0" and ?e2.0 = NotFound
             and lreq' = "list_request (Some ''nobody'') 20 0" and ?st2.0 = "store_of []"
             and treq = "total_request ''2023-01'' ''2023-03''" and ?e3.0 = NotFound
             and ?st3.0 = "store_of []"
             and i = 1 and ?e4.0 = NotFound and ?st4.0 = "store_of []"
             and ureq = start_letters and ?e5.0 = ScanFailure and ?st5.0 = "\<lparr>st_rows = [sub_jan_mar], st_log = [QGetSubscription, QGetSubscription]\<rparr>"]
    run_create_reversed run_create_letters run_list_unparsable run_total_malformed
    run_update_malformed run_update_letters
  by (simp add: validation_error_def service_Delete_eq store_of_def logged_def)

section \<open>List\<close>

lemma run_list_default:
  "service_List ext0 (list_request None 0 0) (store_of [sub_jan_mar, sub_may_open])
   = (Inr ([convertToSubscription ext0 sub_may_open, convertToSubscription ext0 sub_jan_mar], 2),
      list_request None 20 0,
      \<lparr>st_rows = [sub_jan_mar, sub_may_open],
       st_log = [QListSubscriptions, QCountSubscriptions]\<rparr>)"
  by (simp add: service_List_eq repository_List_eq list_request_def clamp_limit_def
      name_filter_def sql_filter_def store_of_def logged_def sub_jan_mar_def sub_may_open_def)








section \<open>The months that the store enumerates\<close>

lemma add_month_greater: "a < add_month a"
  by (cases a) (auto simp: less_prod_def)

lemma generate_series_empty: "b < a \<Longrightarrow> generate_series a b = []"
  by (subst generate_series.simps) simp

lemma generate_series_single: "generate_series a a = [a]"
proof -
  have "\<not> add_month a \<le> a" using add_month_greater [of a] by simp
  then have "generate_series (add_month a) a = []"
    by (subst generate_series.simps) simp
  then show ?thesis by (subst generate_series.simps) simp
qed

lemma generate_series_bounds:
  "m \<in> set (generate_series a b) \<Longrightarrow> a \<le> m \<and> m \<le> b"
proof (induction a b rule: generate_series.induct)
  case (1 cur stop)
  show ?case
  proof (cases "cur \<le> stop")
    case True
    with "1.prems" consider "m = cur" | "m \<in> set (generate_series (add_month cur) stop)"
      by (subst (asm) generate_series.simps) auto
    then show ?thesis
    proof cases
      case 1
      with True show ?thesis by simp
    next
      case 2
      from "1.IH" [OF True 2] add_month_greater [of cur] show ?thesis by auto
    qed
  next
    case False
    with "1.prems" show ?thesis by (subst (asm) generate_series.simps) simp
  qed
qed

lemma distinct_generate_series: "distinct (generate_series a b)"
proof (induction a b rule: generate_series.induct)
  case (1 cur stop)
  show ?case
  proof (cases "cur \<le> stop")
    case True
    have "cur \<notin> set (generate_series (add_month cur) stop)"
      using generate_series_bounds [of cur "add_month cur" stop] add_month_greater [of cur]
      by auto
    with "1.IH" [OF True] True show ?thesis
      by (subst generate_series.simps) simp
  next
    case False
    then show ?thesis by (subst generate_series.simps) simp
  qed
qed

lemma days_in_month_ge: "28 \<le> days_in_month y m"
  by (simp add: days_in_month_def)

lemma generate_series_months:
  assumes "1 \<le> mo" and "mo \<le> 12" and "d \<le> 28"
  shows "set (generate_series (y, mo, d) b)
         = {(y', mo', d') | y' mo' d'. 1 \<le> mo' \<and> mo' \<le> 12 \<and> d' = d
              \<and> (y, mo, d) \<le> (y', mo', d') \<and> (y', mo', d') \<le> b}"
  using assms
proof (induction "(y, mo, d)" b arbitrary: y mo rule: generate_series.induct)
  case (1 stop)
  show ?case
  proof (cases "(y, mo, d) \<le> stop")
    case False
    then show ?thesis
      by (subst generate_series.simps) (auto simp: dual_order.trans)
  next
    case le: True
    have dm: "min d (days_in_month y' m') = d" for y' m'
      using days_in_month_ge [of y' m'] \<open>d \<le> 28\<close> by simp
    have step: "set (generate_series (y, mo, d) stop)
        = insert (y, mo, d) (set (generate_series (add_month (y, mo, d)) stop))"
      using le by (subst generate_series.simps) (simp del: add_month.simps)
    show ?thesis
    proof (cases "mo = 12")
      case True
      have am: "add_month (y, mo, d) = (y + 1, 1, d)" using True by (simp add: dm)
      have ih: "set (generate_series (y + 1, 1, d) stop)
         = {(y', mo', d') | y' mo' d'. 1 \<le> mo' \<and> mo' \<le> 12 \<and> d' = d
              \<and> (y + 1, 1, d) \<le> (y', mo', d') \<and> (y', mo', d') \<le> stop}"
        using "1.hyps" [OF le am] \<open>d \<le> 28\<close> by simp
      show ?thesis
        unfolding step am ih using le True
        by (auto simp: less_eq_prod_def less_prod_def)
    next
      case False
      have am: "add_month (y, mo, d) = (y, mo + 1, d)"
        using False \<open>mo \<le> 12\<close> by (simp add: dm)
      have ih: "set (generate_series (y, mo + 1, d) stop)
         = {(y', mo', d') | y' mo' d'. 1 \<le> mo' \<and> mo' \<le> 12 \<and> d' = d
              \<and> (y, mo + 1, d) \<le> (y', mo', d') \<and> (y', mo', d') \<le> stop}"
        using "1.hyps" [OF le am] \<open>d \<le> 28\<close> False \<open>mo \<le> 12\<close>
        by simp
      show ?thesis
        unfolding step am ih using le \<open>1 \<le> mo\<close> \<open>mo \<le> 12\<close>
        by (auto simp: less_eq_prod_def less_prod_def)
    qed
  qed
qed

lemma series_2023:
  "generate_series (2023, 1, 1) (2023, 3, 1) = [(2023, 1, 1), (2023, 2, 1), (2023, 3, 1)]"
  "generate_series (2023, 2, 1) (2023, 2, 1) = [(2023, 2, 1)]"
  by code_simp+

lemma series_jan_jun:
  "generate_series (2023, 1, 1) (2023, 6, 1)
   = [(2023, 1, 1), (2023, 2, 1), (2023, 3, 1), (2023, 4, 1), (2023, 5, 1), (2023, 6, 1)]"
  by code_simp

lemma month_index_le:
  assumes "1 \<le> m" "m \<le> 12" "1 \<le> m'" "m' \<le> (12::nat)"
  shows "(12 * y + int m \<le> 12 * y' + int m') = (y < y' \<or> y = y' \<and> m \<le> m')"
  using assms by auto

lemma date_le_month_start:
  assumes "1 \<le> m" "m \<le> 12" "1 \<le> m'" "m' \<le> 12" "1 \<le> d'"
  shows "((y, m, 1::nat) \<le> (y', m', d')) = (month_index (y, m, 1) \<le> month_index (y', m', d'))"
  using assms by (auto simp: less_eq_prod_def less_prod_def month_index_def)

lemma series_month_index:
  assumes "1 \<le> mo" and "mo \<le> 12" and "valid_date b"
  shows "map month_index (generate_series (y, mo, 1) b)
         = [month_index (y, mo, 1)..month_index b]"
  using assms
proof (induction "(y, mo, 1::nat)" b arbitrary: y mo rule: generate_series.induct)
  case (1 stop)
  obtain yb mb db where stop: "stop = (yb, mb, db)" by (cases stop) auto
  with \<open>valid_date stop\<close> have vb: "1 \<le> mb" "mb \<le> 12" "1 \<le> db"
    by (simp_all add: valid_date_def)
  have cmp: "((y, mo, 1) \<le> stop) = (month_index (y, mo, 1) \<le> month_index stop)"
    unfolding stop using "1.prems"(1,2) vb by (rule date_le_month_start)
  show ?case
  proof (cases "(y, mo, 1) \<le> stop")
    case False
    with cmp show ?thesis by (subst generate_series.simps) simp
  next
    case le: True
    have dm: "min (Suc 0) (days_in_month y' m') = Suc 0" for y' m'
      using days_in_month_ge [of y' m'] by simp
    have step: "generate_series (y, mo, 1) stop
        = (y, mo, 1) # generate_series (add_month (y, mo, 1)) stop"
      using le by (subst generate_series.simps) (simp del: add_month.simps)
    have up: "[month_index (y, mo, 1)..month_index stop]
        = month_index (y, mo, 1) # [month_index (y, mo, 1) + 1..month_index stop]"
      using le cmp by (simp add: upto_rec1)
    show ?thesis
    proof (cases "mo = 12")
      case True
      have am: "add_month (y, mo, 1) = (y + 1, 1, 1)" using True by (simp add: dm)
      have ih: "map month_index (generate_series (y + 1, 1, 1) stop)
                = [month_index (y + 1, 1, 1)..month_index stop]"
        using "1.hyps" [OF le am] \<open>valid_date stop\<close> by simp
      have "month_index (y + 1, 1, 1) = month_index (y, mo, 1) + 1"
        using True by (simp add: month_index_def)
      with ih show ?thesis unfolding step am up by simp
    next
      case False
      have am: "add_month (y, mo, 1) = (y, mo + 1, 1)"
        using False \<open>mo \<le> 12\<close> by (simp add: dm)
      have ih: "map month_index (generate_series (y, mo + 1, 1) stop)
                = [month_index (y, mo + 1, 1)..month_index stop]"
        using "1.hyps" [OF le am] \<open>valid_date stop\<close> False \<open>mo \<le> 12\<close> by simp
      have "month_index (y, mo + 1, 1) = month_index (y, mo, 1) + 1"
        by (simp add: month_index_def)
      with ih show ?thesis unfolding step am up by simp
    qed
  qed
qed

lemma series_elements:
  assumes "1 \<le> mo" and "mo \<le> 12" and "dt \<in> set (generate_series (y, mo, 1) b)"
  obtains y' mo' where "dt = (y', mo', 1)" "1 \<le> mo'" "mo' \<le> 12"
  using assms generate_series_months [of mo 1 y b] by auto

lemma active_months_count:
  assumes a: "month_start a" and b: "valid_date b" and s: "starts_with_month s"
  shows "length (filter (active_at s) (generate_series a b)) = active_months s a b"
proof -
  obtain y mo where av: "a = (y, mo, 1)" "1 \<le> mo" "mo \<le> 12"
    using a by (cases a) (auto simp: month_start_def valid_date_def)
  obtain ys ms where sv: "r_start_date s = (ys, ms, 1)" "1 \<le> ms" "ms \<le> 12"
    using s by (cases "r_start_date s") (auto simp: starts_with_month_def month_start_def valid_date_def)
  define Q where "Q = (\<lambda>m. month_index (r_start_date s) \<le> m \<and>
                          (case r_end_date s of None \<Rightarrow> True | Some e \<Rightarrow> month_index e \<ge> m))"
  have pt: "active_at s dt = Q (month_index dt)" if "dt \<in> set (generate_series a b)" for dt
  proof -
    from that obtain y' mo' where dt: "dt = (y', mo', 1)" "1 \<le> mo'" "mo' \<le> 12"
      using series_elements [OF av(2,3)] unfolding av(1) by blast
    have st: "(r_start_date s \<le> dt) = (month_index (r_start_date s) \<le> month_index dt)"
      unfolding sv(1) dt(1) using sv(2,3) dt(2,3)
      by (auto simp: less_eq_prod_def less_prod_def month_index_def)
    have en: "(dt \<le> e) = (month_index dt \<le> month_index e)" if "r_end_date s = Some e" for e
    proof -
      obtain ye me de where e: "e = (ye, me, de)" by (cases e) auto
      from s that e have "1 \<le> me" "me \<le> 12" "1 \<le> de"
        by (simp_all add: starts_with_month_def valid_date_def)
      then show ?thesis unfolding dt(1) e using dt(2,3)
        by (auto simp: less_eq_prod_def less_prod_def month_index_def)
    qed
    show ?thesis
      using st en by (auto simp: active_at_def Q_def split: option.splits)
  qed
  have "active_months s a b = length (filter Q (map month_index (generate_series a b)))"
    unfolding av(1) series_month_index [OF av(2,3) b]
    by (simp add: active_months_def Q_def)
  also have "\<dots> = length (filter (Q \<circ> month_index) (generate_series a b))"
    by (simp add: filter_map)
  also have "filter (Q \<circ> month_index) (generate_series a b)
             = filter (active_at s) (generate_series a b)"
    by (rule filter_cong) (simp_all add: pt)
  finally show ?thesis by simp
qed

section \<open>The total cost of a reversed range\<close>

lemma cross_join_Nil [simp]: "cross_join xs [] = []"
  by (induction xs) (simp_all add: cross_join_def)

lemma subscription_costs_no_month [simp]: "subscription_costs x u n [] tbl = []"
  by (simp add: subscription_costs_def)

lemma service_CalculateTotalCost_reversed:
  assumes "date_shape (t_StartDate req)" and "date_shape (t_EndDate req)"
      and "user_filter x (t_UserID req) = Inr u"
      and "date_Scan x (t_StartDate req) = Some a" and "date_Scan x (t_EndDate req) = Some b"
      and "b < a"
  shows "service_CalculateTotalCost x req st
         = (Inr \<lparr>TotalCost = 0\<rparr>, logged QCalculateTotalCost st)"
  using assms
  by (simp add: service_CalculateTotalCost_eq repository_CalculateTotalCost_eq
      generate_series_empty)

lemma run_total_reversed:
  "service_CalculateTotalCost ext0 (total_request ''2023-03-01'' ''2023-01-01'')
     (store_of [sub_jan_mar])
   = (Inr \<lparr>TotalCost = 0\<rparr>, \<lparr>st_rows = [sub_jan_mar], st_log = [QCalculateTotalCost]\<rparr>)"
proof -
  have "service_CalculateTotalCost ext0 (total_request ''2023-03-01'' ''2023-01-01'')
          (store_of [sub_jan_mar])
        = (Inr \<lparr>TotalCost = 0\<rparr>, logged QCalculateTotalCost (store_of [sub_jan_mar]))"
    by (rule service_CalculateTotalCost_reversed [where u = None and a = "(2023, 3, 1)"
          and b = "(2023, 1, 1)"])
       (simp_all add: total_request_def shape_dates scan0_dates less_prod_def)
  then show ?thesis by (simp add: logged_def store_of_def)
qed

text \<open>
  C2, as stated, fails: on a range whose end is before its start the aggregation
  returns a total of 0 after executing its query; it does not fail with
  \<open>InvalidRange\<close>.
\<close>

theorem service_CalculateTotalCost_reversed_counterexample:
  "date_shape ''2023-03-01'' \<and> date_shape ''2023-01-01'' \<and> ''2023-01-01'' < ''2023-03-01''
   \<and> service_CalculateTotalCost ext0 (total_request ''2023-03-01'' ''2023-01-01'')
        (store_of [sub_jan_mar])
      = (Inr \<lparr>TotalCost = 0\<rparr>, \<lparr>st_rows = [sub_jan_mar], st_log = [QCalculateTotalCost]\<rparr>)"
  using run_total_reversed by (simp add: shape_dates)

text \<open>
  C2, amended: the aggregation has no check of the order of the range and never fails
  with \<open>InvalidRange\<close>. For a request whose two dates pass the validator and are read
  as dates by the repository, with the end before the start (and a user filter that is
  absent or parses), the query is executed once, it enumerates no month, and the result
  is a total cost of 0.
\<close>

theorem service_CalculateTotalCost_no_range_check:
  "fst (service_CalculateTotalCost x req st) \<noteq> Inl InvalidRange
   \<and> (date_shape (t_StartDate req) \<and> date_shape (t_EndDate req)
        \<and> user_filter x (t_UserID req) = Inr u
        \<and> date_Scan x (t_StartDate req) = Some a \<and> date_Scan x (t_EndDate req) = Some b
        \<and> b < a
      \<longrightarrow> service_CalculateTotalCost x req st
           = (Inr \<lparr>TotalCost = 0\<rparr>, logged QCalculateTotalCost st))"
proof (intro conjI impI)
  show "fst (service_CalculateTotalCost x req st) \<noteq> Inl InvalidRange"
  proof
    assume "fst (service_CalculateTotalCost x req st) = Inl InvalidRange"
    then obtain st' where "service_CalculateTotalCost x req st = (Inl InvalidRange, st')"
      by (cases "service_CalculateTotalCost x req st") auto
    from service_CalculateTotalCost_Inl [OF this] show False by simp
  qed
qed (auto intro: service_CalculateTotalCost_reversed)

theorem service_CalculateTotalCost_no_range_check_witness:
  "date_shape ''2023-03-01'' \<and> date_shape ''2023-01-01''
   \<and> user_filter ext0 None = Inr None
   \<and> date_Scan ext0 ''2023-03-01'' = Some (2023, 3, 1)
   \<and> date_Scan ext0 ''2023-01-01'' = Some (2023, 1, 1)
   \<and> ((2023, 1, 1) :: date) < (2023, 3, 1)
   \<and> fst (service_CalculateTotalCost ext0 (total_request ''2023-03-01'' ''2023-01-01'')
           (store_of [sub_jan_mar])) \<noteq> Inl InvalidRange
   \<and> service_CalculateTotalCost ext0 (total_request ''2023-03-01'' ''2023-01-01'')
        (store_of [sub_jan_mar])
      = (Inr \<lparr>TotalCost = 0\<rparr>, logged QCalculateTotalCost (store_of [sub_jan_mar]))"
  using service_CalculateTotalCost_no_range_check
          [of ext0 "total_request ''2023-03-01'' ''2023-01-01''" "store_of [sub_jan_mar]"
              None "(2023, 3, 1)" "(2023, 1, 1)"]
  by (simp add: shape_dates scan0_dates date_lt total_request_def)

section \<open>The sum behind the grouping\<close>

lemma set_cross_join [simp]: "set (cross_join xs ys) = set xs \<times> set ys"
  by (auto simp: cross_join_def)

lemma subscription_costs_sum:
  assumes ids: "distinct (map r_id tbl)" and months: "distinct ms"
  shows "sum_list (map (\<lambda>(subscription_id, price, months_count). price * months_count)
           (subscription_costs x u n ms tbl))
         = (\<Sum>s\<leftarrow>filter (sql_filter x u n) tbl.
              r_price s * int (length (filter (active_at s) ms)))"
proof -
  define F :: "date row \<Rightarrow> bool" where "F = sql_filter x u n"
  define joined :: "(date row \<times> date) list" where
    "joined = filter (\<lambda>(s, dr). F s \<and> active_at s dr) (cross_join tbl ms)"
  define key :: "date row \<times> date \<Rightarrow> uuid \<times> int" where
    "key = (\<lambda>(s, dr). (r_id s, r_price s))"
  define kf :: "date row \<Rightarrow> uuid \<times> int" where "kf = (\<lambda>s. (r_id s, r_price s))"
  define g :: "uuid \<times> int \<Rightarrow> int" where
    "g = (\<lambda>k. snd k * int (length (remdups (map snd (filter (\<lambda>j. key j = k) joined)))))"
  define h :: "date row \<Rightarrow> int" where
    "h = (\<lambda>s. r_price s * int (length (filter (active_at s) ms)))"
  define S :: "date row set" where "S = {s \<in> set tbl. F s \<and> (\<exists>m\<in>set ms. active_at s m)}"
  have inj: "inj_on r_id (set tbl)" and dist: "distinct tbl"
    using ids by (simp_all add: distinct_map)
  have set_joined: "set joined = {(s, m). s \<in> set tbl \<and> m \<in> set ms \<and> F s \<and> active_at s m}"
    by (auto simp: joined_def)
  have lhs: "sum_list (map (\<lambda>(subscription_id, price, months_count). price * months_count)
               (subscription_costs x u n ms tbl))
             = sum_list (map g (remdups (map key joined)))"
    by (simp add: subscription_costs_def Let_def joined_def key_def g_def F_def comp_def)
  also have "\<dots> = sum g (set (map key joined))"
    by (simp add: sum_list_distinct_conv_sum_set)
  also have "set (map key joined) = kf ` S"
    by (auto simp: set_joined key_def kf_def S_def image_iff) 
  also have "sum g (kf ` S) = sum (g \<circ> kf) S"
  proof (rule sum.reindex)
    show "inj_on kf S"
      using inj by (auto simp: inj_on_def kf_def S_def)
  qed
  also have "\<dots> = sum h S"
  proof (rule sum.cong [OF refl])
    fix s assume s: "s \<in> S"
    have "set (map snd (filter (\<lambda>j. key j = kf s) joined)) = set (filter (active_at s) ms)"
    proof -
      have "\<And>s' m. s' \<in> set tbl \<Longrightarrow> r_id s' = r_id s \<Longrightarrow> s' = s"
        using inj s by (auto simp: inj_on_def S_def)
      then show ?thesis
        using s by (force simp: set_joined key_def kf_def S_def image_iff)
    qed
    then have "length (remdups (map snd (filter (\<lambda>j. key j = kf s) joined)))
               = card (set (filter (active_at s) ms))"
      by (simp add: length_remdups_card_conv)
    also have "\<dots> = length (filter (active_at s) ms)"
      by (rule distinct_card) (simp add: months)
    finally show "(g \<circ> kf) s = h s"
      by (simp add: g_def h_def kf_def)
  qed
  also have "\<dots> = sum h (set (filter F tbl))"
  proof (rule sum.mono_neutral_left)
    show "finite (set (filter F tbl))" by simp
    show "S \<subseteq> set (filter F tbl)" by (auto simp: S_def)
    show "\<forall>s\<in>set (filter F tbl) - S. h s = 0"
      by (auto simp: S_def h_def filter_empty_conv)
  qed
  also have "\<dots> = sum_list (map h (filter F tbl))"
    using dist by (simp add: sum_list_distinct_conv_sum_set)
  finally show ?thesis by (simp add: h_def F_def)
qed

lemma code_total:
  assumes "distinct (map r_id tbl)"
  shows "sum_list (map (\<lambda>(subscription_id, price, months_count). price * months_count)
           (subscription_costs x u n (generate_series a b) tbl))
         = (\<Sum>s\<leftarrow>filter (sql_filter x u n) tbl.
              r_price s * int (length (filter (active_at s) (generate_series a b))))"
  by (rule subscription_costs_sum [OF assms distinct_generate_series])

lemma code_total_spec:
  assumes "distinct (map r_id tbl)" and "month_start a" and "valid_date b"
      and "list_all starts_with_month tbl" and "ilike_searches x name tbl"
  shows "sum_list (map (\<lambda>(subscription_id, price, months_count). price * months_count)
           (subscription_costs x u (name_filter name) (generate_series a b) tbl))
         = spec_total_cost u name a b tbl"
proof -
  have f: "filter (sql_filter x u (name_filter name)) tbl = filter (filter_matches u name) tbl"
    by (rule filter_cong) (simp_all add: sql_filter_spec [OF assms(5)])
  have c: "length (filter (active_at s) (generate_series a b)) = active_months s a b"
    if "s \<in> set (filter (filter_matches u name) tbl)" for s
    using that assms(4) by (intro active_months_count assms(2,3)) (simp add: list_all_iff)
  show ?thesis
    unfolding code_total [OF assms(1)] f spec_total_cost_def
    by (rule arg_cong [where f = sum_list], rule map_cong) (simp_all add: c)
qed

lemma sum_list_filter_as_if:
  "sum_list (map f (filter P xs)) = (\<Sum>s\<leftarrow>xs. if P s then f s else (0::int))"
  by (induction xs) simp_all

lemma single_month_sum:
  assumes "distinct (map r_id tbl)"
  shows "sum_list (map (\<lambda>(subscription_id, price, months_count). price * months_count)
           (subscription_costs x u n (generate_series a a) tbl))
         = sum_list (map r_price (filter (\<lambda>s. sql_filter x u n s \<and> active_at s a) tbl))"
proof -
  have "(\<Sum>s\<leftarrow>filter (sql_filter x u n) tbl.
           r_price s * int (length (filter (active_at s) (generate_series a a))))
        = (\<Sum>s\<leftarrow>tbl. if sql_filter x u n s \<and> active_at s a then r_price s else 0)"
    unfolding generate_series_single sum_list_filter_as_if
    by (rule arg_cong [where f = sum_list], rule map_cong) auto
  then show ?thesis
    unfolding code_total [OF assms] sum_list_filter_as_if .
qed

section \<open>The total cost in calendar months\<close>

lemma spec_runs:
  "spec_total_cost None None (2023, 1, 1) (2023, 3, 1) [sub_mid_month] = 1200"
  "spec_total_cost None None (2023, 1, 1) (2023, 3, 1) [sub_jan_mar] = 1200"
  "spec_total_cost None None (2023, 2, 1) (2023, 2, 1) [sub_jan_mar] = 400"
  "spec_total_cost None None (2023, 1, 1) (2023, 3, 1) [sub_may_open] = 0"
  "spec_total_cost (Some 7) (Some ''plus'') (2023, 1, 1) (2023, 6, 1)
     [sub_jan_mar, sub_other_user, sub_may_open] = 1200"
  "spec_total_cost None (Some ''plus'') (2023, 1, 1) (2023, 6, 1)
     [sub_jan_mar, sub_other_user, sub_may_open] = 2100"
  "spec_total_cost (Some 7) None (2023, 1, 1) (2023, 6, 1)
     [sub_jan_mar, sub_other_user, sub_may_open] = 2000"
  by code_simp+

lemma run_total_mid_month:
  "service_CalculateTotalCost ext0 (total_request ''2023-01-01'' ''2023-03-01'')
     (store_of [sub_mid_month])
   = (Inr \<lparr>TotalCost = 800\<rparr>, \<lparr>st_rows = [sub_mid_month], st_log = [QCalculateTotalCost]\<rparr>)"
proof -
  have d: "distinct (map r_id (st_rows (store_of [sub_mid_month])))" by simp
  have "sum_list (map (\<lambda>(subscription_id, price, months_count). price * months_count)
          (subscription_costs ext0 None None (generate_series (2023, 1, 1) (2023, 3, 1))
             (st_rows (store_of [sub_mid_month])))) = 800"
    by (subst code_total [OF d])
       (simp add: series_2023 store_of_def sql_filter_def active_at_def sub_mid_month_def
          less_eq_prod_def less_prod_def del: One_nat_def)
  then show ?thesis
    by (simp add: service_CalculateTotalCost_eq repository_CalculateTotalCost_eq
        total_request_def shape_dates scan0_dates name_filter_def bigint_def logged_def
        store_of_def del: One_nat_def)
qed

text \<open>
  C1, as stated, fails: the subscription of price 400 that runs from 15 January to
  15 March 2023 is active in the three calendar months of the range from January to
  March 2023, so the sum of the specification is 1200; the store counts the first days
  of the months of the range that lie between the two dates of the subscription
  (1 February and 1 March), and \<open>CalculateTotalCost\<close> returns 800.
\<close>

theorem total_cost_mid_month_counterexample:
  "date_Scan ext0 ''2023-01-01'' = Some (2023, 1, 1)
   \<and> date_Scan ext0 ''2023-03-01'' = Some (2023, 3, 1)
   \<and> spec_total_cost None None (2023, 1, 1) (2023, 3, 1) [sub_mid_month] = 1200
   \<and> service_CalculateTotalCost ext0 (total_request ''2023-01-01'' ''2023-03-01'')
        (store_of [sub_mid_month])
      = (Inr \<lparr>TotalCost = 800\<rparr>, \<lparr>st_rows = [sub_mid_month], st_log = [QCalculateTotalCost]\<rparr>)"
  using run_total_mid_month by (simp add: scan0_dates spec_runs del: One_nat_def)

text \<open>
  C1, amended: when the range starts on the first day of a month and ends on a date of
  the calendar, every stored subscription starts on the first day of a month, the
  identifiers of the table are distinct and \<open>ILIKE\<close> searches the names as the filter
  of the specification does, \<open>CalculateTotalCost\<close> returns the sum, over the stored
  subscriptions that match the filter, of the price times the number of calendar months
  of the range in which the subscription is active, and runs one query. (A sum that
  does not fit 64 bits makes the cast of the query, and the operation, fail.)
\<close>

theorem service_CalculateTotalCost_calendar_months:
  assumes "distinct (map r_id (st_rows st))"
      and "date_shape (t_StartDate req)" and "date_shape (t_EndDate req)"
      and "user_filter x (t_UserID req) = Inr u"
      and "date_Scan x (t_StartDate req) = Some a" and "date_Scan x (t_EndDate req) = Some b"
      and "month_start a" and "valid_date b"
      and "list_all starts_with_month (st_rows st)"
      and "ilike_searches x (t_ServiceName req) (st_rows st)"
  shows "service_CalculateTotalCost x req st
         = (if - 9223372036854775808 \<le> spec_total_cost u (t_ServiceName req) a b (st_rows st)
               \<and> spec_total_cost u (t_ServiceName req) a b (st_rows st) \<le> 9223372036854775807
            then Inr \<lparr>TotalCost = spec_total_cost u (t_ServiceName req) a b (st_rows st)\<rparr>
            else Inl StorageFailure,
            logged QCalculateTotalCost st)"
  using assms(2-6)
  by (simp add: service_CalculateTotalCost_eq repository_CalculateTotalCost_eq
      code_total_spec [OF assms(1,7,8,9,10)] bigint_eq)

theorem service_CalculateTotalCost_calendar_months_witness:
  "service_CalculateTotalCost ext0 (total_request ''2023-01-01'' ''2023-03-01'')
     (store_of [sub_jan_mar])
   = (Inr \<lparr>TotalCost = 1200\<rparr>, logged QCalculateTotalCost (store_of [sub_jan_mar]))
   \<and> service_CalculateTotalCost ext0 (total_request ''2023-02-01'' ''2023-02-01'')
       (store_of [sub_jan_mar])
     = (Inr \<lparr>TotalCost = 400\<rparr>, logged QCalculateTotalCost (store_of [sub_jan_mar]))
   \<and> service_CalculateTotalCost ext0 (total_request ''2023-01-01'' ''2023-03-01'')
       (store_of [sub_may_open])
     = (Inr \<lparr>TotalCost = 0\<rparr>, logged QCalculateTotalCost (store_of [sub_may_open]))
   \<and> service_CalculateTotalCost ext0 total_filtered
       (store_of [sub_jan_mar, sub_other_user, sub_may_open])
     = (Inr \<lparr>TotalCost = 1200\<rparr>,
        logged QCalculateTotalCost (store_of [sub_jan_mar, sub_other_user, sub_may_open]))
   \<and> spec_total_cost None (Some ''plus'') (2023, 1, 1) (2023, 6, 1)
        [sub_jan_mar, sub_other_user, sub_may_open] = 2100
   \<and> spec_total_cost (Some 7) None (2023, 1, 1) (2023, 6, 1)
        [sub_jan_mar, sub_other_user, sub_may_open] = 2000"
proof -
  have sh: "date_shape (t_StartDate (total_request ''2023-01-01'' ''2023-03-01''))"
    "date_shape (t_EndDate (total_request ''2023-01-01'' ''2023-03-01''))"
    "date_shape (t_StartDate (total_request ''2023-02-01'' ''2023-02-01''))"
    "date_shape (t_EndDate (total_request ''2023-02-01'' ''2023-02-01''))"
    "date_shape (t_StartDate total_filtered)" "date_shape (t_EndDate total_filtered)"
    by (simp_all add: total_request_def total_filtered_def shape_dates)
  have uf: "user_filter ext0 (t_UserID (total_request s e)) = Inr None" for s e
    by (simp add: total_request_def)
  have uf7: "user_filter ext0 (t_UserID total_filtered) = Inr (Some 7)"
    by (simp add: total_filtered_def user_filter_user7)
  have sc: "date_Scan ext0 (t_StartDate (total_request ''2023-01-01'' ''2023-03-01''))
              = Some (2023, 1, 1)"
    "date_Scan ext0 (t_EndDate (total_request ''2023-01-01'' ''2023-03-01''))
              = Some (2023, 3, 1)"
    "date_Scan ext0 (t_StartDate (total_request ''2023-02-01'' ''2023-02-01''))
              = Some (2023, 2, 1)"
    "date_Scan ext0 (t_EndDate (total_request ''2023-02-01'' ''2023-02-01''))
              = Some (2023, 2, 1)"
    "date_Scan ext0 (t_StartDate total_filtered) = Some (2023, 1, 1)"
    "date_Scan ext0 (t_EndDate total_filtered) = Some (2023, 6, 1)"
    by (simp_all add: total_request_def total_filtered_def scan0_dates)
  have al: "list_all starts_with_month (st_rows (store_of [sub_jan_mar]))"
    "list_all starts_with_month (st_rows (store_of [sub_may_open]))"
    "list_all starts_with_month (st_rows (store_of [sub_jan_mar, sub_other_user, sub_may_open]))"
    by (simp_all add: store_of_def rows_start_with_month)
  have d3: "distinct (map r_id (st_rows (store_of [sub_jan_mar, sub_other_user, sub_may_open])))"
    by (simp add: store_of_def sub_jan_mar_def sub_other_user_def sub_may_open_def)
  note t1 = service_CalculateTotalCost_calendar_months
              [OF distinct_one_row sh(1) sh(2) uf sc(1) sc(2) month_starts(1) month_starts(4)
                  al(1) ilike_searches_ext0]
  note t2 = service_CalculateTotalCost_calendar_months
              [OF distinct_one_row sh(3) sh(4) uf sc(3) sc(4) month_starts(2) month_starts(3)
                  al(1) ilike_searches_ext0]
  note t3 = service_CalculateTotalCost_calendar_months
              [OF distinct_one_row sh(1) sh(2) uf sc(1) sc(2) month_starts(1) month_starts(4)
                  al(2) ilike_searches_ext0]
  note t4 = service_CalculateTotalCost_calendar_months
              [OF d3 sh(5) sh(6) uf7 sc(5) sc(6) month_starts(1) month_starts(5)
                  al(3) ilike_searches_ext0]
  have n: "t_ServiceName (total_request s e) = None" for s e
    by (simp add: total_request_def)
  have n7: "t_ServiceName total_filtered = Some ''plus''"
    by (simp add: total_filtered_def)
  have rows: "st_rows (store_of tbl) = tbl" for tbl :: "date row list"
    by (simp add: store_of_def)
  show ?thesis
    using t1 t2 t3 t4 unfolding n n7 rows spec_runs
    by (simp add: spec_runs del: One_nat_def)
qed

section \<open>Dates as text\<close>

lemma by_digit:
  fixes n n' :: nat
  shows "(n < n') = (n div 10 < n' div 10 \<or> n div 10 = n' div 10 \<and> n mod 10 < n' mod 10)"
    and "(n = n') = (n div 10 = n' div 10 \<and> n mod 10 = n' mod 10)"
    and "(n \<le> n') = (n div 10 < n' div 10 \<or> n div 10 = n' div 10 \<and> n mod 10 \<le> n' mod 10)"
proof -
  define q r q' r' where "q = n div 10" and "r = n mod 10" and "q' = n' div 10"
    and "r' = n' mod 10"
  have n: "n = 10 * q + r" "n' = 10 * q' + r'" and r: "r < 10" "r' < 10"
    by (simp_all add: q_def r_def q'_def r'_def)
  consider "q < q'" | "q = q'" | "q' < q" by linarith
  then have "(n < n') = (q < q' \<or> q = q' \<and> r < r') \<and> (n = n') = (q = q' \<and> r = r')
             \<and> (n \<le> n') = (q < q' \<or> q = q' \<and> r \<le> r')"
    unfolding n using r by cases simp_all
  then show
    "(n < n') = (n div 10 < n' div 10 \<or> n div 10 = n' div 10 \<and> n mod 10 < n' mod 10)"
    "(n = n') = (n div 10 = n' div 10 \<and> n mod 10 = n' mod 10)"
    "(n \<le> n') = (n div 10 < n' div 10 \<or> n div 10 = n' div 10 \<and> n mod 10 \<le> n' mod 10)"
    by (simp_all add: q_def r_def q'_def r'_def)
qed

lemma digit_table: "list_all (\<lambda>k. ''0123456789'' ! k = char_of (48 + k)) [0..<10]"
  by (simp add: upt_rec [of _ "numeral _"] upt_rec [of 0] char_of_def bit_Suc_0_iff)

lemma digit_char_code: "digit_char n = char_of (48 + n mod 10)"
proof -
  have "n mod 10 \<in> set [0..<10]" by simp
  with digit_table show ?thesis
    unfolding digit_char_def list_all_iff by blast
qed

lemma of_char_digit_char: "(of_char (digit_char a) :: nat) = 48 + a mod 10"
proof -
  have "48 + a mod 10 < 256" by (rule less_trans [of _ 58]) simp_all
  then show ?thesis by (simp add: digit_char_code)
qed

lemma digit_char_less: "(digit_char a < digit_char b) = (a mod 10 < b mod 10)"
  by (simp add: less_char_def of_char_digit_char)

lemma digit_char_eq: "(digit_char a = digit_char b) = (a mod 10 = b mod 10)"
  using of_char_digit_char [of a] of_char_digit_char [of b]
  by (auto simp: digit_char_code)

lemma year_digits_less:
  assumes "n < 10000" and "n' < (10000::nat)"
  shows "([digit_char (n div 1000), digit_char (n div 100), digit_char (n div 10), digit_char n]
          < [digit_char (n' div 1000), digit_char (n' div 100), digit_char (n' div 10),
             digit_char n']) = (n < n')"
proof -
  have t: "n div 1000 mod 10 = n div 1000" "n' div 1000 mod 10 = n' div 1000"
    using assms by simp_all
  have d: "k div 10 div 10 = k div 100" "k div 100 div 10 = k div 1000" for k :: nat
    by (simp_all add: div_mult2_eq [symmetric])
  have l1: "(n < n') = (n div 10 < n' div 10 \<or> n div 10 = n' div 10 \<and> n mod 10 < n' mod 10)"
    by (rule by_digit(1))
  have l2: "(n div 10 < n' div 10)
            = (n div 100 < n' div 100
               \<or> n div 100 = n' div 100 \<and> n div 10 mod 10 < n' div 10 mod 10)"
    using by_digit(1) [of "n div 10" "n' div 10"] by (simp only: d)
  have l3: "(n div 100 < n' div 100)
            = (n div 1000 < n' div 1000
               \<or> n div 1000 = n' div 1000 \<and> n div 100 mod 10 < n' div 100 mod 10)"
    using by_digit(1) [of "n div 100" "n' div 100"] by (simp only: d)
  have e2: "(n div 10 = n' div 10)
            = (n div 100 = n' div 100 \<and> n div 10 mod 10 = n' div 10 mod 10)"
    using by_digit(2) [of "n div 10" "n' div 10"] by (simp only: d)
  have e3: "(n div 100 = n' div 100)
            = (n div 1000 = n' div 1000 \<and> n div 100 mod 10 = n' div 100 mod 10)"
    using by_digit(2) [of "n div 100" "n' div 100"] by (simp only: d)
  show ?thesis
    unfolding Cons_less_Cons digit_char_less digit_char_eq t l1 l2 l3 e2 e3
    by auto
qed

lemma year_digits_eq:
  assumes "n < 10000" and "n' < (10000::nat)"
  shows "([digit_char (n div 1000), digit_char (n div 100), digit_char (n div 10), digit_char n]
          = [digit_char (n' div 1000), digit_char (n' div 100), digit_char (n' div 10),
             digit_char n']) = (n = n')"
proof -
  have t: "n div 1000 mod 10 = n div 1000" "n' div 1000 mod 10 = n' div 1000"
    using assms by simp_all
  have d: "k div 10 div 10 = k div 100" "k div 100 div 10 = k div 1000" for k :: nat
    by (simp_all add: div_mult2_eq [symmetric])
  have e1: "(n = n') = (n div 10 = n' div 10 \<and> n mod 10 = n' mod 10)"
    by (rule by_digit(2))
  have e2: "(n div 10 = n' div 10)
            = (n div 100 = n' div 100 \<and> n div 10 mod 10 = n' div 10 mod 10)"
    using by_digit(2) [of "n div 10" "n' div 10"] by (simp only: d)
  have e3: "(n div 100 = n' div 100)
            = (n div 1000 = n' div 1000 \<and> n div 100 mod 10 = n' div 100 mod 10)"
    using by_digit(2) [of "n div 100" "n' div 100"] by (simp only: d)
  show ?thesis
    unfolding e1 e2 e3 by (auto simp: digit_char_eq t)
qed

lemma month_digits_le:
  assumes "m < 100" and "m' < (100::nat)"
  shows "([digit_char (m div 10), digit_char m] \<le> [digit_char (m' div 10), digit_char m'])
         = (m \<le> m')"
proof -
  have t: "m div 10 mod 10 = m div 10" "m' div 10 mod 10 = m' div 10"
    using assms by simp_all
  show ?thesis
    unfolding Cons_le_Cons digit_char_less digit_char_eq t by_digit(3) [of m m']
    by auto
qed

lemma append_le_same_length:
  fixes xs ys :: "('a::linorder) list"
  shows "length xs = length ys \<Longrightarrow> (xs @ zs \<le> ys @ ws) = (xs < ys \<or> xs = ys \<and> zs \<le> ws)"
  by (induction xs ys rule: list_induct2) auto

lemma year_month_le:
  assumes "four_digit_year (y, m, d)" and "four_digit_year (y', m', d')"
      and "m \<le> 12" and "m' \<le> 12"
  shows "(year_month (y, m, d) \<le> year_month (y', m', d')) = (y < y' \<or> y = y' \<and> m \<le> m')"
proof -
  have ym: "year_month (y, m, d)
            = [digit_char (nat y div 1000), digit_char (nat y div 100), digit_char (nat y div 10),
               digit_char (nat y)] @ (CHR ''-'' # [digit_char (m div 10), digit_char m])"
    for y m d
    by (simp add: year_month_def date_Format0_def)
  have y: "nat y < 10000" "nat y' < 10000" "(nat y < nat y') = (y < y')"
    "(nat y = nat y') = (y = y')"
    using assms(1,2) by (auto simp: four_digit_year_def)
  have m: "m < 100" "m' < 100" using assms(3,4) by simp_all
  have sep: "(CHR ''-'' # zs \<le> CHR ''-'' # ws) = (zs \<le> ws)" for zs ws :: string
    by simp
  show ?thesis
    unfolding ym
    by (subst append_le_same_length)
       (simp_all only: length_Cons list.size sep year_digits_less [OF y(1,2)]
          year_digits_eq [OF y(1,2)] month_digits_le [OF m] y(3,4) less_irrefl simp_thms)
qed

lemma year_month_keeps_order:
  assumes "month_start a" and "four_digit_year a" and "text_dates s"
  shows "(year_month (r_start_date s) \<le> year_month a) = (r_start_date s \<le> a)"
    and "r_end_date s = Some e \<Longrightarrow> (year_month a \<le> year_month e) = (a \<le> e)"
proof -
  obtain ya ma where a: "a = (ya, ma, 1)" and ma: "1 \<le> ma" "ma \<le> 12"
    using assms(1) by (cases a) (auto simp: month_start_def valid_date_def)
  obtain y m where b: "r_start_date s = (y, m, 1)" and m: "1 \<le> m" "m \<le> 12"
    using assms(3)
    by (cases "r_start_date s")
       (auto simp: text_dates_def starts_with_month_def month_start_def valid_date_def)
  have fa: "four_digit_year (ya, ma, 1)" using assms(2) a by simp
  have fb: "four_digit_year (y, m, 1)" using assms(3) b by (simp add: text_dates_def)
  show "(year_month (r_start_date s) \<le> year_month a) = (r_start_date s \<le> a)"
    unfolding a b year_month_le [OF fb fa m(2) ma(2)]
    by (auto simp: less_eq_prod_def less_prod_def)
  show "(year_month a \<le> year_month e) = (a \<le> e)" if "r_end_date s = Some e"
  proof -
    obtain ye me de where e: "e = (ye, me, de)" by (cases e) auto
    have v: "1 \<le> me" "me \<le> 12" "1 \<le> de" and fe: "four_digit_year (ye, me, de)"
      using assms(3) that e
      by (auto simp: text_dates_def starts_with_month_def valid_date_def)
    show ?thesis
      unfolding a e year_month_le [OF fa fe ma(2) v(2)]
      using v(3) by (auto simp: less_eq_prod_def less_prod_def)
  qed
qed

section \<open>The two generations of the aggregation\<close>

lemma text_total_v1:
  "fst (repository_CalculateTotalCost_v1 x
          \<lparr>tf_UserID = u, tf_ServiceName = n, tf_StartDate = p, tf_EndDate = q\<rparr>
          (text_store repr st))
   = bigint (sum_list (map r_price
       (filter (\<lambda>s. sql_filter x u (Some (case n of None \<Rightarrow> [] | Some v \<Rightarrow> v)) s
                    \<and> repr (r_start_date s) \<le> q
                    \<and> (case r_end_date s of None \<Rightarrow> True | Some e \<Rightarrow> p \<le> repr e))
          (st_rows st))))"
proof -
  have p: "r_price \<circ> as_text repr = r_price" by (rule ext) (simp add: as_text_def)
  have f: "(\<lambda>s. sql_filter x u (Some (case n of None \<Rightarrow> [] | Some v \<Rightarrow> v)) s
                 \<and> r_start_date s \<le> q
                 \<and> (case r_end_date s of None \<Rightarrow> True | Some e \<Rightarrow> p \<le> e)) \<circ> as_text repr
           = (\<lambda>s. sql_filter x u (Some (case n of None \<Rightarrow> [] | Some v \<Rightarrow> v)) s
                   \<and> repr (r_start_date s) \<le> q
                   \<and> (case r_end_date s of None \<Rightarrow> True | Some e \<Rightarrow> p \<le> repr e))"
  proof (rule ext)
    fix s
    have d: "r_start_date (as_text repr s) = repr (r_start_date s)"
      "r_end_date (as_text repr s)
       = (case r_end_date s of None \<Rightarrow> None | Some e \<Rightarrow> Some (repr e))"
      by (simp_all add: as_text_def)
    show "((\<lambda>s. sql_filter x u (Some (case n of None \<Rightarrow> [] | Some v \<Rightarrow> v)) s
                 \<and> r_start_date s \<le> q
                 \<and> (case r_end_date s of None \<Rightarrow> True | Some e \<Rightarrow> p \<le> e)) \<circ> as_text repr) s
          = (sql_filter x u (Some (case n of None \<Rightarrow> [] | Some v \<Rightarrow> v)) s
             \<and> repr (r_start_date s) \<le> q
             \<and> (case r_end_date s of None \<Rightarrow> True | Some e \<Rightarrow> p \<le> repr e))"
      by (cases "r_end_date s") (simp_all add: d)
  qed
  show ?thesis
    by (simp add: repository_CalculateTotalCost_v1_eq text_store_def filter_map p f
        cong: option.case_cong)
qed

lemma run_text_v1:
  "fst (repository_CalculateTotalCost_v1 ext0 (cost_filter ''2023-01'' ''2023-03'')
          (text_store year_month (store_of [sub_jan_mar]))) = Inr 400"
  "fst (repository_CalculateTotalCost_v1 ext0 (cost_filter ''01-2024'' ''01-2024'')
          (text_store month_year (store_of [sub_dec_jan]))) = Inr 0"
  "fst (repository_CalculateTotalCost_v1 ext0 (cost_filter ''2023-02'' ''2023-02'')
          (text_store year_month (store_of [sub_jan_mar, sub_other_user, sub_may_open])))
   = Inr 700"
  "fst (repository_CalculateTotalCost_v1 ext0
          \<lparr>tf_UserID = Some 7, tf_ServiceName = Some ''plus'', tf_StartDate = ''2023-02'',
           tf_EndDate = ''2023-02''\<rparr>
          (text_store year_month (store_of [sub_jan_mar, sub_other_user, sub_may_open])))
   = Inr 400"
  unfolding cost_filter_def text_total_v1
  by (simp_all add: store_of_def sub_jan_mar_def sub_dec_jan_def sub_other_user_def
      sub_may_open_def text_of_rows sql_filter_def ilike0_empty_pattern
      plus_names bigint_def del: One_nat_def)

lemma run_dates_v2:
  "fst (repository_CalculateTotalCost ext0 (cost_filter ''2023-01-01'' ''2023-03-01'')
          (store_of [sub_jan_mar])) = Inr 1200"
  "fst (repository_CalculateTotalCost ext0 (cost_filter ''2024-01-01'' ''2024-01-01'')
          (store_of [sub_dec_jan])) = Inr 400"
proof -
  have d: "distinct (map r_id (st_rows (store_of [s])))" for s :: "date row" by simp
  have a: "sum_list (map (\<lambda>(subscription_id, price, months_count). price * months_count)
          (subscription_costs ext0 None None (generate_series (2023, 1, 1) (2023, 3, 1))
             (st_rows (store_of [sub_jan_mar])))) = 1200"
    by (subst code_total [OF d])
       (simp add: series_2023 store_of_def sql_filter_def active_at_def sub_jan_mar_def
          less_eq_prod_def less_prod_def del: One_nat_def)
  have b: "sum_list (map (\<lambda>(subscription_id, price, months_count). price * months_count)
          (subscription_costs ext0 None None (generate_series (2024, 1, 1) (2024, 1, 1))
             (st_rows (store_of [sub_dec_jan])))) = 400"
    by (subst code_total [OF d])
       (simp add: generate_series_single store_of_def sql_filter_def active_at_def
          sub_dec_jan_def less_eq_prod_def less_prod_def del: One_nat_def)
  show "fst (repository_CalculateTotalCost ext0 (cost_filter ''2023-01-01'' ''2023-03-01'')
          (store_of [sub_jan_mar])) = Inr 1200"
    using a
    by (simp add: repository_CalculateTotalCost_eq cost_filter_def scan0_dates
        name_filter_def bigint_def del: One_nat_def)
  show "fst (repository_CalculateTotalCost ext0 (cost_filter ''2024-01-01'' ''2024-01-01'')
          (store_of [sub_dec_jan])) = Inr 400"
    using b
    by (simp add: repository_CalculateTotalCost_eq cost_filter_def scan0_2024
        name_filter_def bigint_def del: One_nat_def)
qed

text \<open>
  C7, as stated, fails. With the dates kept as \<open>YYYY-MM\<close>, for the subscription of price
  400 from January to March 2023 and the range from January to March 2023 the earlier
  generation returns 400 and the later one 1200. With the dates kept as \<open>MM-YYYY\<close>, for
  the subscription from December 2023 to January 2024 and the single month January 2024
  the earlier generation returns 0 (as text, \<open>12-2023\<close> is above \<open>01-2024\<close>) and the
  later one 400.
\<close>

theorem total_cost_generations_differ_counterexample:
  "date_Scan ext0 ''2023-01-01'' = Some (2023, 1, 1)
   \<and> date_Scan ext0 ''2023-03-01'' = Some (2023, 3, 1)
   \<and> year_month (2023, 1, 1) = ''2023-01'' \<and> year_month (2023, 3, 1) = ''2023-03''
   \<and> fst (repository_CalculateTotalCost_v1 ext0 (cost_filter ''2023-01'' ''2023-03'')
            (text_store year_month (store_of [sub_jan_mar]))) = Inr 400
   \<and> fst (repository_CalculateTotalCost ext0 (cost_filter ''2023-01-01'' ''2023-03-01'')
            (store_of [sub_jan_mar])) = Inr 1200
   \<and> date_Scan ext0 ''2024-01-01'' = Some (2024, 1, 1)
   \<and> month_year (2024, 1, 1) = ''01-2024''
   \<and> map r_start_date (st_rows (text_store month_year (store_of [sub_dec_jan]))) = [''12-2023'']
   \<and> map r_end_date (st_rows (text_store month_year (store_of [sub_dec_jan])))
      = [Some ''01-2024'']
   \<and> fst (repository_CalculateTotalCost_v1 ext0 (cost_filter ''01-2024'' ''01-2024'')
            (text_store month_year (store_of [sub_dec_jan]))) = Inr 0
   \<and> fst (repository_CalculateTotalCost ext0 (cost_filter ''2024-01-01'' ''2024-01-01'')
            (store_of [sub_dec_jan])) = Inr 400"
  using run_text_v1(1,2) run_dates_v2
  by (simp add: scan0_dates scan0_2024 text_of_rows text_store_def store_of_def as_text_def
      sub_dec_jan_def del: One_nat_def)

text \<open>
  C7, amended: let the range be a single month (start and end are read as the same
  first day of a month), let the table of the earlier generation hold the dates of the
  table of the later one as text \<open>YYYY-MM\<close>, and let it be asked with the month of the
  range in that form; let the rows start on the first day of a month, the years have
  four digits, the identifiers be distinct, and the empty pattern \<open>%%\<close> match the names
  of the table. Then the two generations of the aggregation return the same total. (On
  a longer range they differ: the earlier one adds the price of each subscription that
  overlaps the range once, the later one multiplies it by the number of enumerated
  months in which the subscription is active.)
\<close>

theorem total_cost_generations_agree_on_single_month_text:
  assumes "distinct (map r_id (st_rows st))"
      and "date_Scan x s = Some a" and "date_Scan x e = Some a"
      and "list_all (\<lambda>r. ilike x (r_service_name r) ''%%'') (st_rows st)"
      and "month_start a" and "four_digit_year a"
      and "list_all text_dates (st_rows st)"
  shows "fst (repository_CalculateTotalCost x
                \<lparr>tf_UserID = u, tf_ServiceName = n, tf_StartDate = s, tf_EndDate = e\<rparr> st)
       = fst (repository_CalculateTotalCost_v1 x
                \<lparr>tf_UserID = u, tf_ServiceName = n, tf_StartDate = year_month a,
                 tf_EndDate = year_month a\<rparr>
                (text_store year_month st))"
proof -
  have flt: "sql_filter x u (Some (case n of None \<Rightarrow> [] | Some v \<Rightarrow> v)) r
             = sql_filter x u (name_filter n) r" if "r \<in> set (st_rows st)" for r
    using assms(4) that
    by (auto simp: sql_filter_def name_filter_def list_all_iff split: option.splits)
  have act: "(year_month (r_start_date r) \<le> year_month a
              \<and> (case r_end_date r of None \<Rightarrow> True
                  | Some e \<Rightarrow> year_month a \<le> year_month e))
             = active_at r a" if "r \<in> set (st_rows st)" for r
  proof -
    from assms(7) that have t: "text_dates r" by (simp add: list_all_iff)
    show ?thesis
      using year_month_keeps_order [OF assms(5,6) t]
      by (auto simp: active_at_def split: option.splits)
  qed
  have "filter (\<lambda>r. sql_filter x u (Some (case n of None \<Rightarrow> [] | Some v \<Rightarrow> v)) r
                    \<and> year_month (r_start_date r) \<le> year_month a
                    \<and> (case r_end_date r of None \<Rightarrow> True
                        | Some e \<Rightarrow> year_month a \<le> year_month e)) (st_rows st)
        = filter (\<lambda>r. sql_filter x u (name_filter n) r \<and> active_at r a) (st_rows st)"
    by (rule filter_cong) (auto simp: flt act)
  then show ?thesis
    using assms(2,3)
    by (simp add: repository_CalculateTotalCost_eq text_total_v1
        single_month_sum [OF assms(1)])
qed

theorem total_cost_generations_agree_on_single_month_text_witness:
  "distinct (map r_id (st_rows (store_of [sub_jan_mar, sub_other_user, sub_may_open])))
   \<and> date_Scan ext0 ''2023-02-01'' = Some (2023, 2, 1)
   \<and> year_month (2023, 2, 1) = ''2023-02''
   \<and> month_start (2023, 2, 1) \<and> four_digit_year (2023, 2, 1)
   \<and> list_all text_dates (st_rows (store_of [sub_jan_mar, sub_other_user, sub_may_open]))
   \<and> list_all (\<lambda>r. ilike ext0 (r_service_name r) ''%%'')
        (st_rows (store_of [sub_jan_mar, sub_other_user, sub_may_open]))
   \<and> fst (repository_CalculateTotalCost ext0 (cost_filter ''2023-02-01'' ''2023-02-01'')
            (store_of [sub_jan_mar, sub_other_user, sub_may_open])) = Inr 700
   \<and> fst (repository_CalculateTotalCost_v1 ext0 (cost_filter ''2023-02'' ''2023-02'')
            (text_store year_month (store_of [sub_jan_mar, sub_other_user, sub_may_open])))
      = Inr 700
   \<and> fst (repository_CalculateTotalCost ext0
            \<lparr>tf_UserID = Some 7, tf_ServiceName = Some ''plus'',
             tf_StartDate = ''2023-02-01'', tf_EndDate = ''2023-02-01''\<rparr>
            (store_of [sub_jan_mar, sub_other_user, sub_may_open])) = Inr 400
   \<and> fst (repository_CalculateTotalCost_v1 ext0
            \<lparr>tf_UserID = Some 7, tf_ServiceName = Some ''plus'', tf_StartDate = ''2023-02'',
             tf_EndDate = ''2023-02''\<rparr>
            (text_store year_month (store_of [sub_jan_mar, sub_other_user, sub_may_open])))
      = Inr 400"
proof -
  let ?st = "store_of [sub_jan_mar, sub_other_user, sub_may_open]"
  have d: "distinct (map r_id (st_rows ?st))"
    by (simp add: store_of_def sub_jan_mar_def sub_other_user_def sub_may_open_def)
  have sc: "date_Scan ext0 ''2023-02-01'' = Some (2023, 2, 1)" by (simp add: scan0_dates)
  have il: "list_all (\<lambda>r. ilike ext0 (r_service_name r) ''%%'') (st_rows ?st)"
    by (simp add: list_all_iff ilike0_empty_pattern)
  have f: "four_digit_year (2023, 2, 1)" by (simp add: four_digit_year_def)
  note t = total_cost_generations_agree_on_single_month_text
             [OF d sc sc il month_starts(2) f rows_text_dates]
  show ?thesis
    using t [of None None] t [of "Some 7" "Some ''plus''"] d sc il f month_starts(2)
      rows_text_dates
    unfolding text_of_rows cost_filter_def run_text_v1 [unfolded cost_filter_def]
    by simp
qed

end
